theory Spec2Isabelle
  imports Complex_Main
begin

section \<open>Python values as they reach the importer\<close>

text \<open>
  The importer \<^verbatim>\<open>import_xhs_from_excel.py\<close> reads cells of a pandas data frame. A cell
  is a dynamically typed Python value, so the model is a tagged union. A Python \<^verbatim>\<open>str\<close> is
  a sequence of Unicode code points and is modelled as a list of code points; \<open>ascii\<close>
  embeds an ASCII literal.
\<close>

type_synonym pystr = "nat list"

definition ascii :: "string \<Rightarrow> pystr" where
  "ascii s = map of_char s"

text \<open>
  A Python \<^verbatim>\<open>float\<close> is an IEEE double: a finite value (every finite double is a rational
  number, carried here by its exact value, \<open>Fin 0\<close> being 0.0), the negative zero -0.0,
  an infinity or NaN. pandas uses NaN as the marker of a blank cell.
\<close>

datatype pyfloat = Fin rat | NegZero | PosInf | NegInf | NaN

text \<open>
  The values of a cell. \<open>PInt\<close> is a Python \<^verbatim>\<open>int\<close>; \<open>PNpInt\<close> is a \<^verbatim>\<open>numpy.int64\<close>, which is
  what \<^verbatim>\<open>iterrows\<close> delivers when every column of the frame holds integers, and which is
  not an instance of \<^verbatim>\<open>int\<close>. A \<^verbatim>\<open>numpy.float64\<close> is an instance of \<^verbatim>\<open>float\<close> and is a
  \<open>PFloat\<close>. \<open>PDateTime\<close> carries a timestamp and \<open>PNaT\<close> is the missing timestamp.
\<close>

datatype pyval =
    PNone
  | PBool bool
  | PInt int
  | PNpInt int
  | PFloat pyfloat
  | PStr pystr
  | PDateTime int
  | PNaT

text \<open>The exceptions that the modelled code can raise.\<close>

datatype error = ValueError | OverflowError

text \<open>
  Library functions the importer calls but does not define. They are parameters of the
  model: \<open>str_lower\<close> is \<^verbatim>\<open>str.lower\<close>; \<open>float_of_str\<close> is \<^verbatim>\<open>float\<close> applied to a
  \<^verbatim>\<open>str\<close>, with \<open>None\<close> for the \<^verbatim>\<open>ValueError\<close> it raises on text that is not a number;
  \<open>str_of_float\<close> and \<open>str_of_datetime\<close> are \<^verbatim>\<open>str\<close> on a float and on a timestamp;
  \<open>datetime_ms\<close> is the body of the \<^verbatim>\<open>try\<close> block of \<^verbatim>\<open>_to_ts_ms\<close>,
  \<^verbatim>\<open>int(pd.to_datetime(val).timestamp() * 1000)\<close>, with \<open>None\<close> when it raises.
\<close>

record pylib =
  str_lower :: "pystr \<Rightarrow> pystr"
  float_of_str :: "pystr \<Rightarrow> pyfloat option"
  str_of_float :: "pyfloat \<Rightarrow> pystr"
  str_of_datetime :: "int \<Rightarrow> pystr"
  datetime_ms :: "pyval \<Rightarrow> int option"

subsection \<open>Built-in operations\<close>

text \<open>\<^verbatim>\<open>str.isspace\<close> of one code point, and \<^verbatim>\<open>str.strip()\<close>.\<close>

definition is_space :: "nat \<Rightarrow> bool" where
  "is_space c \<longleftrightarrow>
     (9 \<le> c \<and> c \<le> 13) \<or> (28 \<le> c \<and> c \<le> 32) \<or> c = 133 \<or> c = 160 \<or> c = 5760 \<or>
     (8192 \<le> c \<and> c \<le> 8202) \<or> c = 8232 \<or> c = 8233 \<or> c = 8239 \<or> c = 8287 \<or> c = 12288"

definition strip :: "pystr \<Rightarrow> pystr" where
  "strip s = rev (dropWhile is_space (rev (dropWhile is_space s)))"

text \<open>\<^verbatim>\<open>sep.join(xs)\<close>.\<close>

fun join :: "pystr \<Rightarrow> pystr list \<Rightarrow> pystr" where
  "join sep [] = []"
| "join sep [x] = x"
| "join sep (x # y # ys) = x @ sep @ join sep (y # ys)"

text \<open>\<^verbatim>\<open>pd.isna\<close> on a scalar: \<^verbatim>\<open>None\<close>, NaN and NaT.\<close>

definition isna :: "pyval \<Rightarrow> bool" where
  "isna v \<longleftrightarrow> v = PNone \<or> v = PFloat NaN \<or> v = PNaT"

text \<open>
  Truth value of a Python object, as \<^verbatim>\<open>if not x\<close> tests it. The importer applies it only
  to what \<open>get\<close> returns with default \<^verbatim>\<open>None\<close>, which is never NaN or NaT.
\<close>

fun truthy :: "pyval \<Rightarrow> bool" where
  "truthy PNone = False"
| "truthy (PBool b) = b"
| "truthy (PInt n) = (n \<noteq> 0)"
| "truthy (PNpInt n) = (n \<noteq> 0)"
| "truthy (PFloat (Fin q)) = (q \<noteq> 0)"
| "truthy (PFloat NegZero) = False"
| "truthy (PFloat _) = True"
| "truthy (PStr s) = (s \<noteq> [])"
| "truthy (PDateTime _) = True"
| "truthy PNaT = True"

text \<open>Decimal digits of a natural number, and \<^verbatim>\<open>str\<close> of an \<^verbatim>\<open>int\<close>.\<close>

fun digits :: "nat \<Rightarrow> pystr" where
  "digits n = (if n < 10 then [48 + n] else digits (n div 10) @ [48 + n mod 10])"

definition str_of_int :: "int \<Rightarrow> pystr" where
  "str_of_int i = (if i < 0 then 45 # digits (nat (- i)) else digits (nat i))"

text \<open>\<^verbatim>\<open>str(x)\<close>.\<close>

fun py_str :: "pylib \<Rightarrow> pyval \<Rightarrow> pystr" where
  "py_str L PNone = ascii ''None''"
| "py_str L (PBool b) = (if b then ascii ''True'' else ascii ''False'')"
| "py_str L (PInt n) = str_of_int n"
| "py_str L (PNpInt n) = str_of_int n"
| "py_str L (PFloat x) = str_of_float L x"
| "py_str L (PStr s) = s"
| "py_str L (PDateTime t) = str_of_datetime L t"
| "py_str L PNaT = ascii ''NaT''"

text \<open>
  \<^verbatim>\<open>int(x)\<close> on a float truncates toward zero; it raises \<^verbatim>\<open>ValueError\<close> on NaN and
  \<^verbatim>\<open>OverflowError\<close> on an infinity.
\<close>

definition trunc :: "rat \<Rightarrow> int" where
  "trunc q = (if 0 \<le> q then \<lfloor>q\<rfloor> else \<lceil>q\<rceil>)"

fun int_of_float :: "pyfloat \<Rightarrow> error + int" where
  "int_of_float (Fin q) = Inr (trunc q)"
| "int_of_float NegZero = Inr 0"
| "int_of_float NaN = Inl ValueError"
| "int_of_float PosInf = Inl OverflowError"
| "int_of_float NegInf = Inl OverflowError"

section \<open>Coercion helpers\<close>

text \<open>
  \<^verbatim>\<open>_to_int(val, default)\<close>. The guard \<^verbatim>\<open>pd.isna(val)\<close> comes first; an \<^verbatim>\<open>int\<close>, a
  \<^verbatim>\<open>bool\<close> (a subclass of \<^verbatim>\<open>int\<close>) or a \<^verbatim>\<open>float\<close> goes through \<^verbatim>\<open>int(val)\<close> with no
  handler around it; a non-blank \<^verbatim>\<open>str\<close> goes through \<^verbatim>\<open>int(float(val))\<close> inside
  \<^verbatim>\<open>try ... except ValueError\<close>, which lets \<^verbatim>\<open>OverflowError\<close> through. A \<^verbatim>\<open>numpy.int64\<close>
  passes neither \<^verbatim>\<open>isinstance\<close> test and reaches the final \<^verbatim>\<open>return default\<close>, as a
  timestamp does.
\<close>

fun to_int :: "pylib \<Rightarrow> pyval \<Rightarrow> pyval \<Rightarrow> error + pyval" where
  "to_int L PNone dflt = Inr dflt"
| "to_int L PNaT dflt = Inr dflt"
| "to_int L (PBool b) dflt = Inr (PInt (if b then 1 else 0))"
| "to_int L (PInt n) dflt = Inr (PInt n)"
| "to_int L (PNpInt n) dflt = Inr dflt"
| "to_int L (PFloat x) dflt =
     (if x = NaN then Inr dflt
      else case int_of_float x of Inl e \<Rightarrow> Inl e | Inr n \<Rightarrow> Inr (PInt n))"
| "to_int L (PStr s) dflt =
     (if strip s \<noteq> [] then
        (case float_of_str L s of
           None \<Rightarrow> Inr dflt
         | Some x \<Rightarrow>
             (case int_of_float x of
                Inl ValueError \<Rightarrow> Inr dflt
              | Inl e \<Rightarrow> Inl e
              | Inr n \<Rightarrow> Inr (PInt n)))
      else Inr dflt)"
| "to_int L (PDateTime t) dflt = Inr dflt"

text \<open>\<^verbatim>\<open>_to_ts_ms(val, dflt)\<close>. The call of \<^verbatim>\<open>_to_int\<close> is outside the \<^verbatim>\<open>try\<close>.\<close>

definition to_ts_ms :: "pylib \<Rightarrow> pyval \<Rightarrow> pyval \<Rightarrow> error + pyval" where
  "to_ts_ms L val dflt =
     (case to_int L val PNone of
        Inl e \<Rightarrow> Inl e
      | Inr num \<Rightarrow>
          if num \<noteq> PNone then Inr num
          else if val = PNone then Inr dflt
          else (case datetime_ms L val of
                  Some ms \<Rightarrow> Inr (PInt ms)
                | None \<Rightarrow> Inr dflt))"

section \<open>Alias tables\<close>

text \<open>
  The three alias dictionaries of the source, as association lists in declaration order
  (a Python \<^verbatim>\<open>dict\<close> iterates in insertion order). Code points outside ASCII are written
  as numbers.
\<close>

definition NOTE_ALIASES :: "(pystr \<times> pystr list) list" where
  "NOTE_ALIASES =
    [(ascii ''note_id'',
        [ascii ''note_id'', [0x7B14, 0x8BB0] @ ascii ''id'', [0x7B14, 0x8BB0] @ ascii ''ID'']),
     (ascii ''note_url'',
        [ascii ''note_url'', [0x7B14, 0x8BB0, 0x94FE, 0x63A5]]),
     (ascii ''title'',
        [ascii ''title'', [0x7B14, 0x8BB0, 0x6807, 0x9898]]),
     (ascii ''desc'',
        [ascii ''desc'', [0x7B14, 0x8BB0, 0x5185, 0x5BB9]]),
     (ascii ''time'',
        [ascii ''time'', [0x53D1, 0x5E03, 0x65F6, 0x95F4]]),
     (ascii ''tag_list'',
        [ascii ''tag_list'', [0x8BDD, 0x9898], [0x7B14, 0x8BB0, 0x5185, 0x5BB9, 0x6807, 0x7B7E]]),
     (ascii ''source_keyword'',
        [ascii ''source_keyword'', [0x547D, 0x4E2D, 0x5173, 0x952E, 0x8BCD]]),
     (ascii ''liked_count'',
        [ascii ''liked_count'', [0x70B9, 0x8D5E], [0x8D5E], [0x4E92, 0x52A8, 0x91CF]]),
     (ascii ''collected_count'',
        [ascii ''collected_count'', [0x6536, 0x85CF]]),
     (ascii ''comment_count'',
        [ascii ''comment_count'', [0x8BC4, 0x8BBA]]),
     (ascii ''share_count'',
        [ascii ''share_count'', [0x5206, 0x4EAB]]),
     (ascii ''user_id'',
        [ascii ''user_id'', [0x8D26, 0x53F7, 0x5C0F, 0x7EA2, 0x4E66, 0x53F7], [0x4F5C, 0x8005] @ ascii ''ID'']),
     (ascii ''nickname'',
        [ascii ''nickname'', [0x8D26, 0x53F7, 0x6635, 0x79F0]]),
     (ascii ''avatar'',
        [ascii ''avatar'', [0x5934, 0x50CF], [0x8D26, 0x53F7, 0x5934, 0x50CF]]),
     (ascii ''ip_location'',
        [ascii ''ip_location'', [0x53D1, 0x6587, 0x5C5E, 0x5730], ascii ''IP'' @ [0x5C5E, 0x5730]])]"

definition CREATOR_ALIASES :: "(pystr \<times> pystr list) list" where
  "CREATOR_ALIASES =
    [(ascii ''user_id'',
        [ascii ''user_id'', [0x8D26, 0x53F7, 0x5C0F, 0x7EA2, 0x4E66, 0x53F7], [0x4F5C, 0x8005] @ ascii ''ID'']),
     (ascii ''nickname'',
        [ascii ''nickname'', [0x8D26, 0x53F7, 0x6635, 0x79F0]]),
     (ascii ''avatar'',
        [ascii ''avatar'', [0x5934, 0x50CF], [0x8D26, 0x53F7, 0x5934, 0x50CF]]),
     (ascii ''ip_location'',
        [ascii ''ip_location'', ascii ''IP'' @ [0x5C5E, 0x5730], [0x5E38, 0x9A7B, 0x5730]]),
     (ascii ''desc'',
        [ascii ''desc'', [0x8D26, 0x53F7, 0x7B80, 0x4ECB], [0x4F5C, 0x8005, 0x7B80, 0x4ECB]]),
     (ascii ''gender'',
        [ascii ''gender'', [0x6027, 0x522B]]),
     (ascii ''follows'',
        [ascii ''follows'', [0x5173, 0x6CE8, 0x6570]]),
     (ascii ''fans'',
        [ascii ''fans'', [0x5F53, 0x524D, 0x7C89, 0x4E1D, 0x6570], [0x7C89, 0x4E1D, 0x6570]]),
     (ascii ''interaction'',
        [ascii ''interaction'', [0x4E92, 0x52A8, 0x91CF]]),
     (ascii ''tag_list'',
        [ascii ''tag_list'', [0x8D26, 0x53F7, 0x6807, 0x7B7E]])]"

definition COMMENT_ALIASES :: "(pystr \<times> pystr list) list" where
  "COMMENT_ALIASES =
    [(ascii ''comment_id'',
        [ascii ''comment_id'', [0x8BC4, 0x8BBA] @ ascii ''id'', [0x8BC4, 0x8BBA] @ ascii ''ID'']),
     (ascii ''note_id'',
        [ascii ''note_id'', [0x7B14, 0x8BB0] @ ascii ''id'', [0x7B14, 0x8BB0] @ ascii ''ID'']),
     (ascii ''user_id'',
        [ascii ''user_id'', [0x8D26, 0x53F7, 0x5C0F, 0x7EA2, 0x4E66, 0x53F7], [0x4F5C, 0x8005] @ ascii ''ID'']),
     (ascii ''nickname'',
        [ascii ''nickname'', [0x8D26, 0x53F7, 0x6635, 0x79F0]]),
     (ascii ''avatar'',
        [ascii ''avatar'', [0x5934, 0x50CF], [0x8D26, 0x53F7, 0x5934, 0x50CF]]),
     (ascii ''ip_location'',
        [ascii ''ip_location'', ascii ''IP'' @ [0x5C5E, 0x5730]]),
     (ascii ''content'',
        [ascii ''content'', [0x8BC4, 0x8BBA, 0x5185, 0x5BB9]]),
     (ascii ''create_time'',
        [ascii ''create_time'', [0x8BC4, 0x8BBA, 0x65F6, 0x95F4]]),
     (ascii ''sub_comment_count'',
        [ascii ''sub_comment_count'', [0x56DE, 0x590D, 0x6570]]),
     (ascii ''pictures'',
        [ascii ''pictures'', [0x56FE, 0x7247]]),
     (ascii ''parent_comment_id'',
        [ascii ''parent_comment_id'', [0x7236, 0x8BC4, 0x8BBA] @ ascii ''id'']),
     (ascii ''like_count'',
        [ascii ''like_count'', [0x70B9, 0x8D5E, 0x6570], [0x8D5E]])]"

section \<open>Alias resolution\<close>

text \<open>
  A data frame: its column labels in order and its rows; a row maps a column label to
  the cell (\<^verbatim>\<open>row.get(col)\<close> is \<^verbatim>\<open>None\<close> for a label the row does not have).
\<close>

type_synonym row = "pystr \<rightharpoonup> pyval"

record dataframe =
  columns :: "pystr list"
  rows :: "row list"

text \<open>
  \<^verbatim>\<open>lower_cols = {c.lower(): c for c in df.columns}\<close>: the comprehension stores the
  columns from left to right, a later column overwriting an earlier one with the same
  lower-cased label.
\<close>

definition lower_cols :: "pylib \<Rightarrow> pystr list \<Rightarrow> (pystr \<rightharpoonup> pystr)" where
  "lower_cols L cols = fold (\<lambda>c m. m(str_lower L c \<mapsto> c)) cols Map.empty"

text \<open>
  The inner loop of \<^verbatim>\<open>_build_col_map\<close> over one alias list: the first alias whose
  lookup is truthy (present and not the empty string) is taken and the loop breaks.
\<close>

fun first_match :: "pylib \<Rightarrow> (pystr \<rightharpoonup> pystr) \<Rightarrow> pystr list \<Rightarrow> pystr option" where
  "first_match L lc [] = None"
| "first_match L lc (name # names) =
     (case lc (str_lower L name) of
        None \<Rightarrow> first_match L lc names
      | Some col \<Rightarrow> if col \<noteq> [] then Some col else first_match L lc names)"

definition build_col_map ::
  "pylib \<Rightarrow> pystr list \<Rightarrow> (pystr \<times> pystr list) list \<Rightarrow> (pystr \<rightharpoonup> pystr)" where
  "build_col_map L cols aliases =
     (let lc = lower_cols L cols in
      fold (\<lambda>(field, names) col_map.
              case first_match L lc names of
                None \<Rightarrow> col_map
              | Some col \<Rightarrow> col_map(field \<mapsto> col))
           aliases Map.empty)"

text \<open>\<^verbatim>\<open>_get(row, col_map, field, default)\<close>.\<close>

definition get :: "row \<Rightarrow> (pystr \<rightharpoonup> pystr) \<Rightarrow> pystr \<Rightarrow> pyval \<Rightarrow> pyval" where
  "get row col_map field dflt =
     (case col_map field of
        None \<Rightarrow> dflt
      | Some col \<Rightarrow>
          if col = [] then dflt
          else (let val = (case row col of None \<Rightarrow> dflt | Some v \<Rightarrow> v)
                in if isna val then dflt else val))"

section \<open>Records handed to the session\<close>

text \<open>
  The keyword arguments of the three constructor calls. A field filled by \<^verbatim>\<open>_get\<close>
  holds whatever value the cell has; a field filled through \<^verbatim>\<open>str(...)\<close> is text.
\<close>

record XhsCreator =
  creator_user_id :: pystr
  creator_nickname :: pyval
  creator_avatar :: pyval
  creator_ip_location :: pyval
  creator_desc :: pyval
  creator_gender :: pyval
  creator_follows :: pystr
  creator_fans :: pystr
  creator_interaction :: pystr
  creator_tag_list :: pyval
  creator_add_ts :: int
  creator_last_modify_ts :: int

record XhsNote =
  note_user_id :: pystr
  note_nickname :: pyval
  note_avatar :: pyval
  note_ip_location :: pyval
  note_add_ts :: int
  note_last_modify_ts :: int
  note_note_id :: pystr
  note_type :: pyval
  note_title :: pyval
  note_desc :: pyval
  note_video_url :: pyval
  note_time :: pyval
  note_last_update_time :: int
  note_liked_count :: pystr
  note_collected_count :: pystr
  note_comment_count :: pystr
  note_share_count :: pystr
  note_image_list :: pyval
  note_tag_list :: pyval
  note_note_url :: pyval
  note_source_keyword :: pyval
  note_xsec_token :: pyval

record XhsNoteComment =
  comment_user_id :: pyval
  comment_nickname :: pyval
  comment_avatar :: pyval
  comment_ip_location :: pyval
  comment_add_ts :: int
  comment_last_modify_ts :: int
  comment_comment_id :: pystr
  comment_create_time :: pyval
  comment_note_id :: pystr
  comment_content :: pyval
  comment_sub_comment_count :: pyval
  comment_pictures :: pyval
  comment_parent_comment_id :: pyval
  comment_like_count :: pystr

text \<open>\<^verbatim>\<open>df.empty\<close>: no rows or no columns.\<close>

definition df_empty :: "dataframe \<Rightarrow> bool" where
  "df_empty df \<longleftrightarrow> rows df = [] \<or> columns df = []"

text \<open>\<^verbatim>\<open>str(_to_int(_get(row, col_map, field), 0))\<close>, the form of every counter field.\<close>

definition count_str :: "pylib \<Rightarrow> row \<Rightarrow> (pystr \<rightharpoonup> pystr) \<Rightarrow> pystr \<Rightarrow> error + pystr" where
  "count_str L row col_map field =
     (case to_int L (get row col_map field PNone) (PInt 0) of
        Inl e \<Rightarrow> Inl e
      | Inr n \<Rightarrow> Inr (py_str L n))"


section \<open>The three sections of \<^verbatim>\<open>import_from_excel\<close>\<close>

subsection \<open>Creators\<close>

text \<open>
  The constructor call of one creator. Python evaluates the keyword arguments in
  order, so the first coercion that raises decides the exception.
\<close>

definition creator_obj ::
  "pylib \<Rightarrow> int \<Rightarrow> (pystr \<rightharpoonup> pystr) \<Rightarrow> row \<Rightarrow> pystr \<Rightarrow> error + XhsCreator" where
  "creator_obj L now_ms col_map row user_id_str =
     (case count_str L row col_map (ascii ''follows'') of Inl e \<Rightarrow> Inl e | Inr follows \<Rightarrow>
      case count_str L row col_map (ascii ''fans'') of Inl e \<Rightarrow> Inl e | Inr fans \<Rightarrow>
      case count_str L row col_map (ascii ''interaction'') of Inl e \<Rightarrow> Inl e | Inr interaction \<Rightarrow>
        Inr \<lparr>creator_user_id = user_id_str,
             creator_nickname = get row col_map (ascii ''nickname'') PNone,
             creator_avatar = get row col_map (ascii ''avatar'') PNone,
             creator_ip_location = get row col_map (ascii ''ip_location'') PNone,
             creator_desc = get row col_map (ascii ''desc'') PNone,
             creator_gender = get row col_map (ascii ''gender'') PNone,
             creator_follows = follows,
             creator_fans = fans,
             creator_interaction = interaction,
             creator_tag_list = get row col_map (ascii ''tag_list'') PNone,
             creator_add_ts = now_ms,
             creator_last_modify_ts = now_ms\<rparr>)"

text \<open>
  The loop over the creator rows, with its two pieces of state: the set
  \<^verbatim>\<open>seen_user_ids\<close> and the list \<^verbatim>\<open>objs\<close>. An exception leaves the loop.
\<close>

fun creators_loop ::
  "pylib \<Rightarrow> int \<Rightarrow> (pystr \<rightharpoonup> pystr) \<Rightarrow> row list \<Rightarrow> pystr set \<Rightarrow> XhsCreator list
     \<Rightarrow> error + XhsCreator list" where
  "creators_loop L now_ms col_map [] seen_user_ids objs = Inr objs"
| "creators_loop L now_ms col_map (row # rest) seen_user_ids objs =
     (let user_id = get row col_map (ascii ''user_id'') PNone in
      if \<not> truthy user_id then creators_loop L now_ms col_map rest seen_user_ids objs
      else
        let user_id_str = py_str L user_id in
        if user_id_str \<in> seen_user_ids
        then creators_loop L now_ms col_map rest seen_user_ids objs
        else
          (case creator_obj L now_ms col_map row user_id_str of
             Inl e \<Rightarrow> Inl e
           | Inr obj \<Rightarrow>
               creators_loop L now_ms col_map rest
                 (insert user_id_str seen_user_ids) (objs @ [obj])))"

text \<open>
  The creator section: nothing is imported for an absent or empty frame, or when
  \<^verbatim>\<open>user_id\<close> did not resolve. The result is the list given to \<^verbatim>\<open>session.add_all\<close>.
\<close>

definition import_creators :: "pylib \<Rightarrow> int \<Rightarrow> dataframe option \<Rightarrow> error + XhsCreator list" where
  "import_creators L now_ms df_creators =
     (case df_creators of
        None \<Rightarrow> Inr []
      | Some df \<Rightarrow>
          if df_empty df then Inr []
          else
            let col_map = build_col_map L (columns df) CREATOR_ALIASES in
            if col_map (ascii ''user_id'') = None then Inr []
            else creators_loop L now_ms col_map (rows df) {} [])"

subsection \<open>Tag merge\<close>

text \<open>The four auxiliary columns read by their literal labels.\<close>

definition TAG_COLUMNS :: "pystr list" where
  "TAG_COLUMNS =
     [[0x7B14, 0x8BB0, 0x5206, 0x7C7B],
      [0x63D0, 0x53CA, 0x54C1, 0x7C7B],
      [0x79CD, 0x8349, 0x54C1, 0x724C],
      [0x5546, 0x4E1A, 0x5408, 0x4F5C, 0x54C1, 0x724C]]"

text \<open>
  The loop that fills \<^verbatim>\<open>extra_tags\<close>: a column contributes when it is a column of the
  frame and the cell is a \<^verbatim>\<open>str\<close> that is not blank; the stripped text is appended.
\<close>

fun extra_tags :: "pystr list \<Rightarrow> row \<Rightarrow> pystr list \<Rightarrow> pystr list" where
  "extra_tags cols row [] = []"
| "extra_tags cols row (col_name # others) =
     (if col_name \<in> set cols then
        (case row col_name of
           Some (PStr s) \<Rightarrow>
             if strip s \<noteq> [] then strip s # extra_tags cols row others
             else extra_tags cols row others
         | _ \<Rightarrow> extra_tags cols row others)
      else extra_tags cols row others)"

definition merged_tag_list ::
  "pylib \<Rightarrow> pystr list \<Rightarrow> (pystr \<rightharpoonup> pystr) \<Rightarrow> row \<Rightarrow> pyval" where
  "merged_tag_list L cols col_map row =
     (let raw_tag_list = get row col_map (ascii ''tag_list'') PNone;
          extra = extra_tags cols row TAG_COLUMNS;
          tags = (if raw_tag_list \<noteq> PNone \<and> strip (py_str L raw_tag_list) \<noteq> []
                  then strip (py_str L raw_tag_list) # extra else extra)
      in if tags \<noteq> [] then PStr (join (ascii '' | '') tags) else PNone)"

subsection \<open>Notes\<close>

text \<open>
  One pass of the note loop for the row at index \<open>idx\<close>: \<open>Inr None\<close> is \<^verbatim>\<open>continue\<close>,
  \<open>Inr (Some obj)\<close> is \<^verbatim>\<open>objs.append(obj)\<close>.
\<close>

definition note_row ::
  "pylib \<Rightarrow> int \<Rightarrow> pystr list \<Rightarrow> (pystr \<rightharpoonup> pystr) \<Rightarrow> nat \<Rightarrow> row \<Rightarrow> error + XhsNote option" where
  "note_row L now_ms cols col_map idx row =
     (let note_id =
            (if col_map (ascii ''note_id'') \<noteq> None
             then get row col_map (ascii ''note_id'') PNone
             else PStr (ascii ''row_'' @ str_of_int (int idx + 1)))
      in
      if col_map (ascii ''note_id'') \<noteq> None \<and> \<not> truthy note_id then Inr None
      else
        (case to_ts_ms L (get row col_map (ascii ''time'') PNone) (PInt now_ms) of
           Inl e \<Rightarrow> Inl e
         | Inr t_ms \<Rightarrow>
             let merged = merged_tag_list L cols col_map row;
                 raw_user_id = get row col_map (ascii ''user_id'') PNone;
                 user_id_str = (if truthy raw_user_id then py_str L raw_user_id
                                else ascii ''unknown'')
             in
             case count_str L row col_map (ascii ''liked_count'') of Inl e \<Rightarrow> Inl e | Inr liked \<Rightarrow>
             case count_str L row col_map (ascii ''collected_count'') of Inl e \<Rightarrow> Inl e | Inr collected \<Rightarrow>
             case count_str L row col_map (ascii ''comment_count'') of Inl e \<Rightarrow> Inl e | Inr commented \<Rightarrow>
             case count_str L row col_map (ascii ''share_count'') of Inl e \<Rightarrow> Inl e | Inr shared \<Rightarrow>
               Inr (Some
                 \<lparr>note_user_id = user_id_str,
                  note_nickname = get row col_map (ascii ''nickname'') PNone,
                  note_avatar = get row col_map (ascii ''avatar'') PNone,
                  note_ip_location = get row col_map (ascii ''ip_location'') PNone,
                  note_add_ts = now_ms,
                  note_last_modify_ts = now_ms,
                  note_note_id = py_str L note_id,
                  note_type = PNone,
                  note_title = get row col_map (ascii ''title'') PNone,
                  note_desc = get row col_map (ascii ''desc'') PNone,
                  note_video_url = PNone,
                  note_time = t_ms,
                  note_last_update_time = now_ms,
                  note_liked_count = liked,
                  note_collected_count = collected,
                  note_comment_count = commented,
                  note_share_count = shared,
                  note_image_list = PNone,
                  note_tag_list = merged,
                  note_note_url = get row col_map (ascii ''note_url'') PNone,
                  note_source_keyword = get row col_map (ascii ''source_keyword'') PNone,
                  note_xsec_token = PNone\<rparr>)))"

text \<open>
  \<^verbatim>\<open>for idx, row in df_notes.iterrows()\<close>: the frame comes from \<^verbatim>\<open>pd.read_excel\<close> with
  its default index, so \<open>idx\<close> counts the rows from zero.
\<close>

fun notes_loop ::
  "pylib \<Rightarrow> int \<Rightarrow> pystr list \<Rightarrow> (pystr \<rightharpoonup> pystr) \<Rightarrow> nat \<Rightarrow> row list \<Rightarrow> XhsNote list
     \<Rightarrow> error + XhsNote list" where
  "notes_loop L now_ms cols col_map idx [] objs = Inr objs"
| "notes_loop L now_ms cols col_map idx (row # rest) objs =
     (case note_row L now_ms cols col_map idx row of
        Inl e \<Rightarrow> Inl e
      | Inr None \<Rightarrow> notes_loop L now_ms cols col_map (Suc idx) rest objs
      | Inr (Some obj) \<Rightarrow> notes_loop L now_ms cols col_map (Suc idx) rest (objs @ [obj]))"

definition import_notes :: "pylib \<Rightarrow> int \<Rightarrow> dataframe option \<Rightarrow> error + XhsNote list" where
  "import_notes L now_ms df_notes =
     (case df_notes of
        None \<Rightarrow> Inr []
      | Some df \<Rightarrow>
          if df_empty df then Inr []
          else
            let col_map = build_col_map L (columns df) NOTE_ALIASES in
            notes_loop L now_ms (columns df) col_map 0 (rows df) [])"

subsection \<open>Comments\<close>

text \<open>\<^verbatim>\<open>x or 0\<close>.\<close>

definition or_zero :: "pyval \<Rightarrow> pyval" where
  "or_zero x = (if truthy x then x else PInt 0)"

definition comment_row ::
  "pylib \<Rightarrow> int \<Rightarrow> (pystr \<rightharpoonup> pystr) \<Rightarrow> row \<Rightarrow> error + XhsNoteComment option" where
  "comment_row L now_ms col_map row =
     (let comment_id = get row col_map (ascii ''comment_id'') PNone;
          note_id = get row col_map (ascii ''note_id'') PNone
      in
      if \<not> truthy comment_id \<or> \<not> truthy note_id then Inr None
      else
        (case to_ts_ms L (get row col_map (ascii ''create_time'') PNone) (PInt now_ms) of
           Inl e \<Rightarrow> Inl e
         | Inr ct_ms \<Rightarrow>
             case to_int L (get row col_map (ascii ''sub_comment_count'') PNone) (PInt 0) of
               Inl e \<Rightarrow> Inl e
             | Inr sub \<Rightarrow>
                 case count_str L row col_map (ascii ''like_count'') of
                   Inl e \<Rightarrow> Inl e
                 | Inr liked \<Rightarrow>
                     Inr (Some
                       \<lparr>comment_user_id =
                          (if truthy (get row col_map (ascii ''user_id'') PNone)
                           then PStr (py_str L (get row col_map (ascii ''user_id'') PNone))
                           else PNone),
                        comment_nickname = get row col_map (ascii ''nickname'') PNone,
                        comment_avatar = get row col_map (ascii ''avatar'') PNone,
                        comment_ip_location = get row col_map (ascii ''ip_location'') PNone,
                        comment_add_ts = now_ms,
                        comment_last_modify_ts = now_ms,
                        comment_comment_id = py_str L comment_id,
                        comment_create_time = ct_ms,
                        comment_note_id = py_str L note_id,
                        comment_content = get row col_map (ascii ''content'') PNone,
                        comment_sub_comment_count = or_zero sub,
                        comment_pictures = get row col_map (ascii ''pictures'') PNone,
                        comment_parent_comment_id =
                          get row col_map (ascii ''parent_comment_id'') PNone,
                        comment_like_count = liked\<rparr>)))"

fun comments_loop ::
  "pylib \<Rightarrow> int \<Rightarrow> (pystr \<rightharpoonup> pystr) \<Rightarrow> row list \<Rightarrow> XhsNoteComment list
     \<Rightarrow> error + XhsNoteComment list" where
  "comments_loop L now_ms col_map [] objs = Inr objs"
| "comments_loop L now_ms col_map (row # rest) objs =
     (case comment_row L now_ms col_map row of
        Inl e \<Rightarrow> Inl e
      | Inr None \<Rightarrow> comments_loop L now_ms col_map rest objs
      | Inr (Some obj) \<Rightarrow> comments_loop L now_ms col_map rest (objs @ [obj]))"

definition import_comments ::
  "pylib \<Rightarrow> int \<Rightarrow> dataframe option \<Rightarrow> error + XhsNoteComment list" where
  "import_comments L now_ms df_comments =
     (case df_comments of
        None \<Rightarrow> Inr []
      | Some df \<Rightarrow>
          if df_empty df then Inr []
          else
            let col_map = build_col_map L (columns df) COMMENT_ALIASES in
            if col_map (ascii ''comment_id'') = None \<or> col_map (ascii ''note_id'') = None
            then Inr []
            else comments_loop L now_ms col_map (rows df) [])"

subsection \<open>The whole run\<close>

text \<open>
  The body of \<^verbatim>\<open>import_from_excel\<close> once the three frames are read: creators, notes,
  comments, in this order; an exception in one section ends the run. Reading the
  workbook (which gives the three frames, \<open>None\<close> for a sheet that is absent) and the
  database session are outside the model; the result is the three lists handed to
  \<^verbatim>\<open>session.add_all\<close>, and \<open>now_ms\<close> is the start time of the run.
\<close>

definition import_from_excel ::
  "pylib \<Rightarrow> int \<Rightarrow> dataframe option \<Rightarrow> dataframe option \<Rightarrow> dataframe option
     \<Rightarrow> error + (XhsCreator list \<times> XhsNote list \<times> XhsNoteComment list)" where
  "import_from_excel L now_ms df_creators df_notes df_comments =
     (case import_creators L now_ms df_creators of
        Inl e \<Rightarrow> Inl e
      | Inr creators \<Rightarrow>
          case import_notes L now_ms df_notes of
            Inl e \<Rightarrow> Inl e
          | Inr notes \<Rightarrow>
              case import_comments L now_ms df_comments of
                Inl e \<Rightarrow> Inl e
              | Inr comments \<Rightarrow> Inr (creators, notes, comments))"


section \<open>A sample of the library\<close>

text \<open>
  One instance of the library parameters, used where a concrete input is evaluated. It
  agrees with Python on the inputs it lists: \<^verbatim>\<open>str.lower\<close> on text whose only cased
  characters are ASCII letters (the ideographs of the alias tables have no case);
  \<^verbatim>\<open>float\<close> on the four texts below (the double nearest to 12.9 is
  7262054399134925 / 2^49); \<^verbatim>\<open>str\<close> of a float on integral values below 10^16, on the
  negative zero and on the three special values; a timestamp is carried by its
  nanoseconds since the epoch and only whole seconds are converted, and
  \<^verbatim>\<open>pd.to_datetime\<close> reads a \<^verbatim>\<open>numpy.int64\<close> as nanoseconds since the epoch too (whole
  seconds, and the value 1700000000, which gives 1700). Elsewhere the sample answers
  \<open>None\<close> or the empty text and describes nothing.
\<close>

definition lower_cp :: "nat \<Rightarrow> nat" where
  "lower_cp c = (if 65 \<le> c \<and> c \<le> 90 then c + 32 else c)"

definition sample_float :: "pystr \<Rightarrow> pyfloat option" where
  "sample_float s =
     (if s = ascii ''12.9'' then Some (Fin (7262054399134925 / 562949953421312))
      else if s = ascii ''inf'' then Some PosInf
      else if s = ascii ''-inf'' then Some NegInf
      else if s = ascii ''nan'' then Some NaN
      else None)"

definition sample_str_of_float :: "pyfloat \<Rightarrow> pystr" where
  "sample_str_of_float x =
     (case x of
        Fin q \<Rightarrow>
          if of_int \<lfloor>q\<rfloor> = q \<and> \<bar>q\<bar> < 10 ^ 16 then str_of_int \<lfloor>q\<rfloor> @ ascii ''.0'' else []
      | NegZero \<Rightarrow> ascii ''-0.0''
      | PosInf \<Rightarrow> ascii ''inf''
      | NegInf \<Rightarrow> ascii ''-inf''
      | NaN \<Rightarrow> ascii ''nan'')"

definition sample_datetime_ms :: "pyval \<Rightarrow> int option" where
  "sample_datetime_ms v =
     (case v of
        PDateTime t \<Rightarrow> if t mod 10 ^ 9 = 0 then Some (t div 10 ^ 6) else None
      | PNpInt n \<Rightarrow>
          if n mod 10 ^ 9 = 0 \<or> n = 1700000000 then Some (n div 10 ^ 6) else None
      | _ \<Rightarrow> None)"

definition sample_lib :: pylib where
  "sample_lib =
     \<lparr>str_lower = map lower_cp,
      float_of_str = sample_float,
      str_of_float = sample_str_of_float,
      str_of_datetime = (\<lambda>t. []),
      datetime_ms = sample_datetime_ms\<rparr>"

section \<open>Notions used in the statements\<close>

text \<open>
  A cell on which \<^verbatim>\<open>int(...)\<close> overflows: an infinite float, or non-blank text that
  \<^verbatim>\<open>float\<close> parses to an infinity.
\<close>

definition infinite_cell :: "pylib \<Rightarrow> pyval \<Rightarrow> bool" where
  "infinite_cell L v =
     (case v of
        PFloat x \<Rightarrow> x = PosInf \<or> x = NegInf
      | PStr s \<Rightarrow> strip s \<noteq> [] \<and> (float_of_str L s = Some PosInf \<or> float_of_str L s = Some NegInf)
      | _ \<Rightarrow> False)"

text \<open>
  An alias matches a sheet when some header is equal to it after lower-casing both;
  \<open>last_header\<close> is the last such header in header order.
\<close>

definition alias_matches :: "pylib \<Rightarrow> pystr list \<Rightarrow> pystr \<Rightarrow> bool" where
  "alias_matches L cols a = (\<exists>h \<in> set cols. str_lower L h = str_lower L a)"

definition last_header :: "pylib \<Rightarrow> pystr list \<Rightarrow> pystr \<Rightarrow> pystr" where
  "last_header L cols a = last (filter (\<lambda>h. str_lower L h = str_lower L a) cols)"


text \<open>
  The tag merge as the specification words it: the sequence starts with the resolved
  \<^verbatim>\<open>tag_list\<close> value when it is present and not blank, and goes on, in the fixed order, with
  the non-blank values of the four auxiliary columns; the merged tag joins the values
  (as text) with \<^verbatim>\<open>" | "\<close>, and is null for the empty sequence.
\<close>

definition blank :: "pyval \<Rightarrow> bool" where
  "blank v \<longleftrightarrow> isna v \<or> (case v of PStr s \<Rightarrow> strip s = [] | _ \<Rightarrow> False)"

definition spec_tag_values :: "pystr list \<Rightarrow> (pystr \<rightharpoonup> pystr) \<Rightarrow> row \<Rightarrow> pyval list" where
  "spec_tag_values cols col_map row =
     (let t = get row col_map (ascii ''tag_list'') PNone in if blank t then [] else [t]) @
     concat (map (\<lambda>c. if c \<in> set cols
                         then (case row c of None \<Rightarrow> [] | Some v \<Rightarrow> if blank v then [] else [v])
                         else [])
                 TAG_COLUMNS)"

definition spec_merged_tag :: "pylib \<Rightarrow> pystr list \<Rightarrow> (pystr \<rightharpoonup> pystr) \<Rightarrow> row \<Rightarrow> pyval" where
  "spec_merged_tag L cols col_map row =
     (let vs = spec_tag_values cols col_map row
      in if vs = [] then PNone else PStr (join (ascii '' | '') (map (py_str L) vs)))"

text \<open>
  The tag merge as amended: an auxiliary column contributes only when its cell is text,
  and every contribution is the stripped text.
\<close>

definition text_tag :: "pyval option \<Rightarrow> pystr list" where
  "text_tag cell = (case cell of Some (PStr s) \<Rightarrow> if strip s \<noteq> [] then [strip s] else [] | _ \<Rightarrow> [])"

definition stripped_tags :: "pylib \<Rightarrow> pystr list \<Rightarrow> (pystr \<rightharpoonup> pystr) \<Rightarrow> row \<Rightarrow> pystr list" where
  "stripped_tags L cols col_map row =
     (let t = get row col_map (ascii ''tag_list'') PNone
      in if t \<noteq> PNone \<and> strip (py_str L t) \<noteq> [] then [strip (py_str L t)] else []) @
     concat (map (\<lambda>c. if c \<in> set cols then text_tag (row c) else []) TAG_COLUMNS)"


text \<open>
  The cells of a row that go through a coercion, for each kind of record: a row all of
  whose coerced cells are finite cannot raise.
\<close>

definition creator_cells_finite :: "pylib \<Rightarrow> (pystr \<rightharpoonup> pystr) \<Rightarrow> row \<Rightarrow> bool" where
  "creator_cells_finite L col_map row \<longleftrightarrow>
     \<not> infinite_cell L (get row col_map (ascii ''follows'') PNone) \<and>
     \<not> infinite_cell L (get row col_map (ascii ''fans'') PNone) \<and>
     \<not> infinite_cell L (get row col_map (ascii ''interaction'') PNone)"


definition note_cells_finite :: "pylib \<Rightarrow> (pystr \<rightharpoonup> pystr) \<Rightarrow> row \<Rightarrow> bool" where
  "note_cells_finite L col_map row \<longleftrightarrow>
     \<not> infinite_cell L (get row col_map (ascii ''time'') PNone) \<and>
     \<not> infinite_cell L (get row col_map (ascii ''liked_count'') PNone) \<and>
     \<not> infinite_cell L (get row col_map (ascii ''collected_count'') PNone) \<and>
     \<not> infinite_cell L (get row col_map (ascii ''comment_count'') PNone) \<and>
     \<not> infinite_cell L (get row col_map (ascii ''share_count'') PNone)"

definition comment_cells_finite :: "pylib \<Rightarrow> (pystr \<rightharpoonup> pystr) \<Rightarrow> row \<Rightarrow> bool" where
  "comment_cells_finite L col_map row \<longleftrightarrow>
     \<not> infinite_cell L (get row col_map (ascii ''create_time'') PNone) \<and>
     \<not> infinite_cell L (get row col_map (ascii ''sub_comment_count'') PNone) \<and>
     \<not> infinite_cell L (get row col_map (ascii ''like_count'') PNone)"

text \<open>
  A creator record \<open>obj\<close> comes from the first row that carries its \<^verbatim>\<open>user_id\<close>: a row with
  a truthy \<^verbatim>\<open>user_id\<close> cell whose text is the record's \<^verbatim>\<open>user_id\<close>, before which no row with
  a truthy cell has that text, and the record is the one built from this row.
\<close>

definition first_row_of ::
  "pylib \<Rightarrow> int \<Rightarrow> (pystr \<rightharpoonup> pystr) \<Rightarrow> row list \<Rightarrow> XhsCreator \<Rightarrow> bool" where
  "first_row_of L now_ms col_map rs obj \<longleftrightarrow>
     (\<exists>pre r post. rs = pre @ r # post \<and>
        truthy (get r col_map (ascii ''user_id'') PNone) \<and>
        py_str L (get r col_map (ascii ''user_id'') PNone) = creator_user_id obj \<and>
        (\<forall>p \<in> set pre. truthy (get p col_map (ascii ''user_id'') PNone) \<longrightarrow>
            py_str L (get p col_map (ascii ''user_id'') PNone) \<noteq> creator_user_id obj) \<and>
        creator_obj L now_ms col_map r (creator_user_id obj) = Inr obj)"


section \<open>Example sheets\<close>

text \<open>
  The sheets of the specification's examples: two creator rows with the same
  \<^verbatim>\<open>user_id\<close>; four note rows in a sheet without a \<^verbatim>\<open>note_id\<close> column, and a note row with an
  empty \<^verbatim>\<open>note_id\<close> cell; a comment sheet with a valid row and a row without \<^verbatim>\<open>comment_id\<close>.
  A blank cell is read by pandas as NaN.
\<close>

definition creators_example :: dataframe where
  "creators_example =
     \<lparr>columns = [ascii ''user_id'', ascii ''nickname''],
      rows = [[ascii ''user_id'' \<mapsto> PStr (ascii ''u1''), ascii ''nickname'' \<mapsto> PStr (ascii ''A'')],
              [ascii ''user_id'' \<mapsto> PStr (ascii ''u1''), ascii ''nickname'' \<mapsto> PStr (ascii ''B'')]]\<rparr>"

definition notes_example :: dataframe where
  "notes_example =
     \<lparr>columns = [ascii ''title''],
      rows = [[ascii ''title'' \<mapsto> PStr (ascii ''a'')], [ascii ''title'' \<mapsto> PStr (ascii ''b'')],
              [ascii ''title'' \<mapsto> PStr (ascii ''c'')], [ascii ''title'' \<mapsto> PStr (ascii ''d'')]]\<rparr>"

definition comments_example :: dataframe where
  "comments_example =
     \<lparr>columns = [ascii ''comment_id'', ascii ''note_id''],
      rows = [[ascii ''comment_id'' \<mapsto> PStr (ascii ''c1''), ascii ''note_id'' \<mapsto> PStr (ascii ''n1'')],
              [ascii ''comment_id'' \<mapsto> PFloat NaN, ascii ''note_id'' \<mapsto> PStr (ascii ''n1'')]]\<rparr>"

text \<open>
  The same sheets with one cell that holds an infinity, which is how pandas reads the
  text \<^verbatim>\<open>inf\<close> in a column of numbers: the creator sheet with a \<^verbatim>\<open>fans\<close> column, a note sheet
  without a \<^verbatim>\<open>note_id\<close> column and with a \<^verbatim>\<open>liked_count\<close> column, the comment sheet with a
  \<^verbatim>\<open>like_count\<close> column.
\<close>

definition creators_overflow_example :: dataframe where
  "creators_overflow_example =
     \<lparr>columns = [ascii ''user_id'', ascii ''nickname'', ascii ''fans''],
      rows = [[ascii ''user_id'' \<mapsto> PStr (ascii ''u1''), ascii ''nickname'' \<mapsto> PStr (ascii ''A''),
               ascii ''fans'' \<mapsto> PFloat PosInf],
              [ascii ''user_id'' \<mapsto> PStr (ascii ''u1''), ascii ''nickname'' \<mapsto> PStr (ascii ''B''),
               ascii ''fans'' \<mapsto> PFloat (Fin 12)]]\<rparr>"


definition comments_overflow_example :: dataframe where
  "comments_overflow_example =
     \<lparr>columns = [ascii ''comment_id'', ascii ''note_id'', ascii ''like_count''],
      rows = [[ascii ''comment_id'' \<mapsto> PStr (ascii ''c1''), ascii ''note_id'' \<mapsto> PStr (ascii ''n1''),
               ascii ''like_count'' \<mapsto> PFloat PosInf],
              [ascii ''comment_id'' \<mapsto> PFloat NaN, ascii ''note_id'' \<mapsto> PStr (ascii ''n1''),
               ascii ''like_count'' \<mapsto> PFloat (Fin 3)]]\<rparr>"

section \<open>Coercion: what the helpers return\<close>

text \<open>
  Python integers and booleans pass through \<open>to_int\<close>; a finite float is truncated toward
  zero.
\<close>

lemma to_int_native:
  "to_int L (PInt n) d = Inr (PInt n)"
  "to_int L (PBool b) d = Inr (PInt (if b then 1 else 0))"
  "to_int L (PFloat (Fin q)) d = Inr (PInt (trunc q))"
  "to_int L (PFloat NegZero) d = Inr (PInt 0)"
  by simp_all

text \<open>
  A \<^verbatim>\<open>numpy.int64\<close> does not pass through: it gives the default, so a counter cell of an
  all-integer sheet reads as 0, and a timestamp cell goes on to \<^verbatim>\<open>pd.to_datetime\<close>, which
  reads the number as nanoseconds (1700000000 becomes 1700).
\<close>

lemma to_int_numpy:
  "to_int L (PNpInt n) d = Inr d"
  "count_str L [c \<mapsto> PNpInt 12] [f \<mapsto> c] f = Inr (str_of_int 0)"
  "to_ts_ms sample_lib (PNpInt 1700000000) d = Inr (PInt 1700)"
  by (simp_all add: count_str_def get_def isna_def to_ts_ms_def sample_lib_def
      sample_datetime_ms_def)

lemma trunc_toward_zero:
  "\<bar>of_int (trunc q)\<bar> \<le> \<bar>q\<bar> \<and> \<bar>q - of_int (trunc q)\<bar> < 1"
proof (cases "0 \<le> q")
  case True
  then have t: "trunc q = \<lfloor>q\<rfloor>" by (simp add: trunc_def)
  have a: "of_int \<lfloor>q\<rfloor> \<le> q" by (rule of_int_floor_le)
  have b: "q < of_int \<lfloor>q\<rfloor> + 1" by (metis floor_correct of_int_add of_int_1)
  have "0 \<le> \<lfloor>q\<rfloor>" using True by (simp only: zero_le_floor)
  then have c: "(0::rat) \<le> of_int \<lfloor>q\<rfloor>" by (simp only: of_int_0_le_iff)
  show ?thesis unfolding t using a b c True by (intro conjI; linarith)
next
  case False
  then have t: "trunc q = \<lceil>q\<rceil>" by (simp add: trunc_def)
  have a: "q \<le> of_int \<lceil>q\<rceil>" and b: "of_int \<lceil>q\<rceil> - 1 < q"
    using ceiling_correct [of q] by blast+
  have "\<lceil>q\<rceil> \<le> 0" using False by (simp add: ceiling_le_iff)
  then have c: "of_int \<lceil>q\<rceil> \<le> (0::rat)" by (simp only: of_int_le_0_iff)
  show ?thesis unfolding t using a b c False by (intro conjI; linarith)
qed
text \<open>Text is parsed by \<^verbatim>\<open>float\<close> and truncated; text that does not parse gives the default.\<close>

lemma to_int_text:
  "strip s \<noteq> [] \<Longrightarrow> float_of_str L s = Some (Fin q) \<Longrightarrow> to_int L (PStr s) d = Inr (PInt (trunc q))"
  "float_of_str L s = None \<Longrightarrow> to_int L (PStr s) d = Inr d"
  "float_of_str L s = Some NaN \<Longrightarrow> to_int L (PStr s) d = Inr d"
  "strip s = [] \<Longrightarrow> to_int L (PStr s) d = Inr d"
  by simp_all

text \<open>Blank cells and timestamps give the default.\<close>

lemma to_int_default:
  "isna v \<Longrightarrow> to_int L v d = Inr d"
  "to_int L (PDateTime t) d = Inr d"
  by (auto simp: isna_def)

text \<open>
  The only exception \<open>to_int\<close> lets out is \<^verbatim>\<open>OverflowError\<close>, and only on an infinite
  cell; \<open>to_ts_ms\<close> raises exactly when \<open>to_int\<close> does.
\<close>

lemma to_int_raises_iff:
  "to_int L v d = Inl e \<longleftrightarrow> e = OverflowError \<and> infinite_cell L v"
proof (cases v)
  case (PFloat x)
  then show ?thesis by (cases x) (auto simp: infinite_cell_def)
next
  case (PStr s)
  show ?thesis
  proof (cases "float_of_str L s")
    case None
    with PStr show ?thesis by (simp add: infinite_cell_def)
  next
    case (Some x)
    with PStr show ?thesis by (cases x) (auto simp: infinite_cell_def)
  qed
qed (auto simp: infinite_cell_def)

lemma to_int_returns:
  "\<not> infinite_cell L v \<Longrightarrow> \<exists>r. to_int L v d = Inr r"
  using to_int_raises_iff [of L v d] by (cases "to_int L v d") auto

lemma to_int_result:
  "to_int L v d = Inr r \<Longrightarrow> r = d \<or> (\<exists>n. r = PInt n)"
  by (cases v) (auto split: if_splits option.splits sum.splits error.splits)

lemma to_ts_ms_raises_iff:
  "to_ts_ms L v d = Inl e \<longleftrightarrow> e = OverflowError \<and> infinite_cell L v"
  using to_int_raises_iff [of L v PNone e]
  by (auto simp: to_ts_ms_def split: sum.splits option.splits)

lemma to_ts_ms_literal:
  "to_int L v PNone = Inr (PInt n) \<Longrightarrow> to_ts_ms L v d = Inr (PInt n)"
  by (simp add: to_ts_ms_def)

lemma to_ts_ms_fallback:
  "to_int L v PNone = Inr PNone \<Longrightarrow>
   to_ts_ms L v d =
     Inr (if v = PNone then d else case datetime_ms L v of Some ms \<Rightarrow> PInt ms | None \<Rightarrow> d)"
  by (simp add: to_ts_ms_def split: option.splits)

lemma to_ts_ms_seconds_scale:
  "to_ts_ms L (PInt 1700000000) d = Inr (PInt 1700000000)"
  by (simp add: to_ts_ms_def)

lemma count_str_raises_iff:
  "count_str L row col_map field = Inl e \<longleftrightarrow>
     e = OverflowError \<and> infinite_cell L (get row col_map field PNone)"
  using to_int_raises_iff [of L "get row col_map field PNone" "PInt 0" e]
  by (auto simp: count_str_def split: sum.splits)

section \<open>Claims about the coercion helpers\<close>

text \<open>
  C3. Timestamp coercion is claimed to return, for every input value, the literal integer
  when integer coercion succeeds, and otherwise the parsed date or the supplied default.
  The literal policy holds for a Python integer (\<open>to_ts_ms_literal\<close>,
  \<open>to_ts_ms_seconds_scale\<close>) and so does the fallback (\<open>to_ts_ms_fallback\<close>), but on an
  infinite float the integer step raises \<^verbatim>\<open>OverflowError\<close> outside the \<^verbatim>\<open>try\<close> block: neither
  a parse is attempted nor the default returned. (A \<^verbatim>\<open>numpy.int64\<close> is a further input on
  which the literal is not returned, \<open>to_int_numpy\<close>.)
\<close>

theorem to_ts_ms_infinite_raises:
  "to_ts_ms L (PFloat PosInf) d = Inl OverflowError \<and>
   to_ts_ms L (PFloat NegInf) d = Inl OverflowError"
  by (simp add: to_ts_ms_def)

text \<open>
  C4. The coercion functions are claimed total: every raw cell value, any text included,
  gives the coerced value or the default and no error reaches the caller. Text that
  \<^verbatim>\<open>float\<close> parses to an infinity (such as \<^verbatim>\<open>"inf"\<close>) makes \<^verbatim>\<open>int(float(val))\<close> raise
  \<^verbatim>\<open>OverflowError\<close>, which \<^verbatim>\<open>except ValueError\<close> does not catch: both helpers raise.
\<close>

theorem coercion_text_overflow_raises:
  "float_of_str L s = Some PosInf \<Longrightarrow> strip s \<noteq> [] \<Longrightarrow>
   to_int L (PStr s) d = Inl OverflowError \<and> to_ts_ms L (PStr s) d = Inl OverflowError"
  by (simp add: to_ts_ms_def)

theorem coercion_text_overflow_raises_witness:
  "float_of_str sample_lib (ascii ''inf'') = Some PosInf \<and> strip (ascii ''inf'') \<noteq> [] \<and>
   to_int sample_lib (PStr (ascii ''inf'')) (PInt 0) = Inl OverflowError \<and>
   to_ts_ms sample_lib (PStr (ascii ''inf'')) (PInt 0) = Inl OverflowError"
proof -
  have h1: "float_of_str sample_lib (ascii ''inf'') = Some PosInf"
    by (simp add: sample_lib_def sample_float_def ascii_def)
  have h2: "strip (ascii ''inf'') \<noteq> []"
    by (simp add: strip_def ascii_def is_space_def)
  from coercion_text_overflow_raises [OF h1 h2, of "PInt 0"] h1 h2 show ?thesis by simp
qed

text \<open>
  C8. Integer coercion is claimed, for every input value, to pass integers through, to
  truncate floats toward zero, to parse and truncate numeric text, and to return the
  default for anything else. This holds for Python integers, finite floats, text and
  blanks (\<open>to_int_native\<close>, \<open>to_int_text\<close>, \<open>to_int_default\<close>); a native infinite float is
  neither truncated nor replaced by the default: \<^verbatim>\<open>int(val)\<close> raises \<^verbatim>\<open>OverflowError\<close>. (A
  \<^verbatim>\<open>numpy.int64\<close> is a further input that does not pass through, \<open>to_int_numpy\<close>.)
\<close>

theorem to_int_infinite_raises:
  "to_int L (PFloat PosInf) d = Inl OverflowError \<and>
   to_int L (PFloat NegInf) d = Inl OverflowError"
  by simp

section \<open>Alias resolution: the lookup and the scan\<close>

text \<open>
  The dictionary built from the headers holds, under a lower-cased label, the last
  header with that lower-cased label.
\<close>

lemma fold_upd_last:
  "fold (\<lambda>c m. m(f c \<mapsto> c)) cols m0 k =
     (if \<exists>c \<in> set cols. f c = k then Some (last (filter (\<lambda>c. f c = k) cols)) else m0 k)"
proof (induction cols rule: rev_induct)
  case Nil
  show ?case by simp
next
  case (snoc c cols)
  show ?case
  proof (cases "f c = k")
    case True
    then show ?thesis by simp
  next
    case False
    then show ?thesis using snoc by simp
  qed
qed

lemma lower_cols_None:
  "\<not> alias_matches L cols a \<Longrightarrow> lower_cols L cols (str_lower L a) = None"
  by (simp add: lower_cols_def fold_upd_last alias_matches_def)

lemma lower_cols_Some:
  "alias_matches L cols a \<Longrightarrow> lower_cols L cols (str_lower L a) = Some (last_header L cols a)"
  by (simp add: lower_cols_def fold_upd_last alias_matches_def last_header_def)

lemma last_header_in:
  "alias_matches L cols a \<Longrightarrow>
   last_header L cols a \<in> set cols \<and> str_lower L (last_header L cols a) = str_lower L a"
proof -
  assume "alias_matches L cols a"
  then have ne: "filter (\<lambda>h. str_lower L h = str_lower L a) cols \<noteq> []"
    by (auto simp: alias_matches_def filter_empty_conv)
  from last_in_set [OF ne] show ?thesis by (simp add: last_header_def)
qed

lemma first_match_hit:
  "[] \<notin> set cols \<Longrightarrow> \<forall>b \<in> set pre. \<not> alias_matches L cols b \<Longrightarrow> alias_matches L cols a \<Longrightarrow>
   first_match L (lower_cols L cols) (pre @ a # post) = Some (last_header L cols a)"
proof (induction pre)
  case Nil
  then show ?case using last_header_in [of L cols a] by (auto simp: lower_cols_Some)
next
  case (Cons b pre)
  then have "lower_cols L cols (str_lower L b) = None" by (simp add: lower_cols_None)
  with Cons show ?case by simp
qed

lemma first_match_miss:
  "\<forall>b \<in> set names. \<not> alias_matches L cols b \<Longrightarrow> first_match L (lower_cols L cols) names = None"
  by (induction names) (simp_all add: lower_cols_None)

lemma fold_col_map:
  "distinct (map fst als) \<Longrightarrow>
   fold (\<lambda>(field, names) col_map.
           case first_match L lc names of None \<Rightarrow> col_map | Some col \<Rightarrow> col_map(field \<mapsto> col))
        als m0 field =
     (case map_of als field of
        None \<Rightarrow> m0 field
      | Some names \<Rightarrow> (case first_match L lc names of None \<Rightarrow> m0 field | Some col \<Rightarrow> Some col))"
proof (induction als arbitrary: m0)
  case Nil
  show ?case by simp
next
  case (Cons p als)
  obtain f ns where p: "p = (f, ns)" by (cases p)
  from Cons.prems p have d: "distinct (map fst als)" and nf: "f \<notin> fst ` set als" by auto
  from nf have mo: "map_of als f = None" by (simp add: map_of_eq_None_iff)
  show ?case using Cons.IH [OF d] mo by (auto simp: p split: option.splits)
qed

lemma build_col_map_map_of:
  "distinct (map fst aliases) \<Longrightarrow>
   build_col_map L cols aliases field =
     (case map_of aliases field of
        None \<Rightarrow> None
      | Some names \<Rightarrow> first_match L (lower_cols L cols) names)"
  by (simp add: build_col_map_def fold_col_map split: option.splits)

lemma build_col_map_field:
  "distinct (map fst aliases) \<Longrightarrow> (field, names) \<in> set aliases \<Longrightarrow>
   build_col_map L cols aliases field = first_match L (lower_cols L cols) names"
  by (simp add: build_col_map_def fold_col_map split: option.splits)

lemma build_col_map_absent:
  "field \<notin> fst ` set aliases \<Longrightarrow> build_col_map L cols aliases field = None"
proof -
  have "fold (\<lambda>(field, names) col_map.
           case first_match L lc names of None \<Rightarrow> col_map | Some col \<Rightarrow> col_map(field \<mapsto> col))
        als m0 field = m0 field" if "field \<notin> fst ` set als" for als m0 lc
    using that by (induction als arbitrary: m0) (auto split: option.splits)
  then show "field \<notin> fst ` set aliases \<Longrightarrow> build_col_map L cols aliases field = None"
    by (simp add: build_col_map_def)
qed

lemma last_header_split:
  "str_lower L h = str_lower L a \<Longrightarrow> \<forall>y \<in> set ys. str_lower L y \<noteq> str_lower L a \<Longrightarrow>
   last_header L (xs @ h # ys) a = h"
proof -
  assume h: "str_lower L h = str_lower L a" and ys: "\<forall>y \<in> set ys. str_lower L y \<noteq> str_lower L a"
  from ys have "filter (\<lambda>c. str_lower L c = str_lower L a) ys = []"
    by (simp add: filter_empty_conv)
  with h show ?thesis by (simp add: last_header_def)
qed

lemma NOTE_ALIASES_distinct: "distinct (map fst NOTE_ALIASES)"
  by (simp add: NOTE_ALIASES_def ascii_def)

section \<open>Claims about alias resolution\<close>

text \<open>
  C1. For every entity schema (a dictionary, so its field names are distinct) and every
  sequence of header labels (none of them the empty text: pandas names a blank header),
  alias resolution scans the alias list of a field in declaration order: when no alias
  before \<open>a\<close> matches a header case-insensitively and \<open>a\<close> does, the field is mapped to an
  original header label that matches \<open>a\<close>, whatever follows \<open>a\<close> in the list; a field none
  of whose aliases match, and a name that is not a field of the schema, are absent from
  the column map. In particular, with the two headers U+70B9 U+8D5E and U+8D5E the field
  \<^verbatim>\<open>liked_count\<close> of the note schema resolves to the first of them, and with the header
  \<^verbatim>\<open>"Note_ID"\<close> the field \<^verbatim>\<open>note_id\<close> resolves to it; the two examples assume of
  \<^verbatim>\<open>str.lower\<close> only what it does on the labels involved.
\<close>

theorem alias_resolution_order:
  "(distinct (map fst aliases) \<and> [] \<notin> set cols \<and> (field, pre @ a # post) \<in> set aliases \<and>
      (\<forall>b \<in> set pre. \<not> alias_matches L cols b) \<and> alias_matches L cols a
    \<longrightarrow> (\<exists>h \<in> set cols. str_lower L h = str_lower L a \<and>
            build_col_map L cols aliases field = Some h)) \<and>
   (distinct (map fst aliases) \<and> (field, names) \<in> set aliases \<and>
      (\<forall>b \<in> set names. \<not> alias_matches L cols b)
    \<longrightarrow> build_col_map L cols aliases field = None) \<and>
   (field \<notin> fst ` set aliases \<longrightarrow> build_col_map L cols aliases field = None) \<and>
   (str_lower L (ascii ''liked_count'') = ascii ''liked_count'' \<and>
      str_lower L [0x70B9, 0x8D5E] = [0x70B9, 0x8D5E] \<and> str_lower L [0x8D5E] = [0x8D5E]
    \<longrightarrow> build_col_map L [[0x70B9, 0x8D5E], [0x8D5E]] NOTE_ALIASES (ascii ''liked_count'')
          = Some [0x70B9, 0x8D5E]) \<and>
   (str_lower L (ascii ''Note_ID'') = ascii ''note_id'' \<and>
      str_lower L (ascii ''note_id'') = ascii ''note_id''
    \<longrightarrow> build_col_map L [ascii ''Note_ID''] NOTE_ALIASES (ascii ''note_id'')
          = Some (ascii ''Note_ID''))"
proof (intro conjI impI)
  assume h: "distinct (map fst aliases) \<and> [] \<notin> set cols \<and> (field, pre @ a # post) \<in> set aliases \<and>
      (\<forall>b \<in> set pre. \<not> alias_matches L cols b) \<and> alias_matches L cols a"
  then have "build_col_map L cols aliases field = Some (last_header L cols a)"
    by (simp add: build_col_map_field [of aliases field "pre @ a # post"] first_match_hit)
  with h last_header_in [of L cols a]
  show "\<exists>h \<in> set cols. str_lower L h = str_lower L a \<and> build_col_map L cols aliases field = Some h"
    by auto
next
  assume "distinct (map fst aliases) \<and> (field, names) \<in> set aliases \<and>
      (\<forall>b \<in> set names. \<not> alias_matches L cols b)"
  then show "build_col_map L cols aliases field = None"
    by (simp add: build_col_map_field [of aliases field names] first_match_miss)
next
  assume "field \<notin> fst ` set aliases"
  then show "build_col_map L cols aliases field = None" by (rule build_col_map_absent)
next
  assume h: "str_lower L (ascii ''liked_count'') = ascii ''liked_count'' \<and>
      str_lower L [0x70B9, 0x8D5E] = [0x70B9, 0x8D5E] \<and> str_lower L [0x8D5E] = [0x8D5E]"
  have m: "(ascii ''liked_count'',
            [ascii ''liked_count'', [0x70B9, 0x8D5E], [0x8D5E], [0x4E92, 0x52A8, 0x91CF]])
           \<in> set NOTE_ALIASES"
    by (simp add: NOTE_ALIASES_def)
  show "build_col_map L [[0x70B9, 0x8D5E], [0x8D5E]] NOTE_ALIASES (ascii ''liked_count'')
          = Some [0x70B9, 0x8D5E]"
    using h by (simp add: build_col_map_field [OF NOTE_ALIASES_distinct m] lower_cols_def)
      (simp add: ascii_def)
next
  assume h: "str_lower L (ascii ''Note_ID'') = ascii ''note_id'' \<and>
      str_lower L (ascii ''note_id'') = ascii ''note_id''"
  have m: "(ascii ''note_id'',
            [ascii ''note_id'', [0x7B14, 0x8BB0] @ ascii ''id'', [0x7B14, 0x8BB0] @ ascii ''ID''])
           \<in> set NOTE_ALIASES"
    by (simp add: NOTE_ALIASES_def)
  show "build_col_map L [ascii ''Note_ID''] NOTE_ALIASES (ascii ''note_id'') = Some (ascii ''Note_ID'')"
    using h by (simp add: build_col_map_field [OF NOTE_ALIASES_distinct m] lower_cols_def)
      (simp add: ascii_def)
qed

lemma sample_lower:
  "str_lower sample_lib (ascii ''liked_count'') = ascii ''liked_count''"
  "str_lower sample_lib [0x70B9, 0x8D5E] = [0x70B9, 0x8D5E]"
  "str_lower sample_lib [0x8D5E] = [0x8D5E]"
  "str_lower sample_lib (ascii ''Note_ID'') = ascii ''note_id''"
  "str_lower sample_lib (ascii ''note_id'') = ascii ''note_id''"
  by (simp_all add: sample_lib_def lower_cp_def ascii_def)

theorem alias_resolution_order_witness:
  "distinct (map fst NOTE_ALIASES) \<and> [] \<notin> set [[0x70B9, 0x8D5E], [0x8D5E]] \<and>
   (ascii ''liked_count'',
      [ascii ''liked_count''] @ [0x70B9, 0x8D5E] # [[0x8D5E], [0x4E92, 0x52A8, 0x91CF]])
     \<in> set NOTE_ALIASES \<and>
   \<not> alias_matches sample_lib [[0x70B9, 0x8D5E], [0x8D5E]] (ascii ''liked_count'') \<and>
   alias_matches sample_lib [[0x70B9, 0x8D5E], [0x8D5E]] [0x70B9, 0x8D5E] \<and>
   build_col_map sample_lib [[0x70B9, 0x8D5E], [0x8D5E]] NOTE_ALIASES (ascii ''liked_count'')
     = Some [0x70B9, 0x8D5E] \<and>
   build_col_map sample_lib [[0x70B9, 0x8D5E], [0x8D5E]] NOTE_ALIASES (ascii ''note_id'') = None \<and>
   ascii ''nothing'' \<notin> fst ` set NOTE_ALIASES \<and>
   build_col_map sample_lib [[0x70B9, 0x8D5E], [0x8D5E]] NOTE_ALIASES (ascii ''nothing'') = None \<and>
   build_col_map sample_lib [ascii ''Note_ID''] NOTE_ALIASES (ascii ''note_id'')
     = Some (ascii ''Note_ID'')"
proof -
  let ?cols = "[[0x70B9, 0x8D5E], [0x8D5E :: nat]]"
  have a1: "\<not> alias_matches sample_lib ?cols (ascii ''liked_count'')"
    by (simp add: alias_matches_def sample_lower) (simp add: ascii_def)
  have a2: "alias_matches sample_lib ?cols [0x70B9, 0x8D5E]"
    by (simp add: alias_matches_def)
  have m: "(ascii ''liked_count'',
      [ascii ''liked_count''] @ [0x70B9, 0x8D5E] # [[0x8D5E], [0x4E92, 0x52A8, 0x91CF]])
     \<in> set NOTE_ALIASES"
    by (simp add: NOTE_ALIASES_def)
  have m2: "(ascii ''note_id'',
            [ascii ''note_id'', [0x7B14, 0x8BB0] @ ascii ''id'', [0x7B14, 0x8BB0] @ ascii ''ID''])
           \<in> set NOTE_ALIASES"
    by (simp add: NOTE_ALIASES_def)
  have a3: "\<forall>b \<in> set [ascii ''note_id'', [0x7B14, 0x8BB0] @ ascii ''id'', [0x7B14, 0x8BB0] @ ascii ''ID''].
              \<not> alias_matches sample_lib ?cols b"
    by (simp add: alias_matches_def sample_lib_def lower_cp_def ascii_def)
  have n: "ascii ''nothing'' \<notin> fst ` set NOTE_ALIASES"
    by (simp add: NOTE_ALIASES_def ascii_def)
  note T = alias_resolution_order [where L = sample_lib and cols = ?cols and aliases = NOTE_ALIASES]
  have r1: "build_col_map sample_lib ?cols NOTE_ALIASES (ascii ''liked_count'') = Some [0x70B9, 0x8D5E]"
    using T [where field = "ascii ''liked_count''"] sample_lower by simp
  have r2: "build_col_map sample_lib ?cols NOTE_ALIASES (ascii ''note_id'') = None"
    using T [where field = "ascii ''note_id''" and
        names = "[ascii ''note_id'', [0x7B14, 0x8BB0] @ ascii ''id'', [0x7B14, 0x8BB0] @ ascii ''ID'']"]
      NOTE_ALIASES_distinct m2 a3 by blast
  have r3: "build_col_map sample_lib ?cols NOTE_ALIASES (ascii ''nothing'') = None"
    using T [where field = "ascii ''nothing''"] n by blast
  have r4: "build_col_map sample_lib [ascii ''Note_ID''] NOTE_ALIASES (ascii ''note_id'')
     = Some (ascii ''Note_ID'')"
    using alias_resolution_order [where L = sample_lib] sample_lower by simp
  show ?thesis using NOTE_ALIASES_distinct m a1 a2 r1 r2 r3 r4 n by simp
qed

text \<open>
  C5 as claimed: of headers that are equal case-insensitively the lookup keeps the first.
  It keeps the last: with headers \<^verbatim>\<open>["Note_ID", "note_id"]\<close> the lookup under \<^verbatim>\<open>"note_id"\<close>
  and the resolution of the field \<^verbatim>\<open>note_id\<close> both give \<^verbatim>\<open>"note_id"\<close>, the second header.
\<close>

theorem lower_cols_first_not_kept:
  "lower_cols sample_lib [ascii ''Note_ID'', ascii ''note_id''] (ascii ''note_id'')
     = Some (ascii ''note_id'') \<and>
   build_col_map sample_lib [ascii ''Note_ID'', ascii ''note_id''] NOTE_ALIASES (ascii ''note_id'')
     = Some (ascii ''note_id'') \<and>
   ascii ''note_id'' \<noteq> ascii ''Note_ID''"
proof -
  have m: "(ascii ''note_id'',
            [ascii ''note_id'', [0x7B14, 0x8BB0] @ ascii ''id'', [0x7B14, 0x8BB0] @ ascii ''ID''])
           \<in> set NOTE_ALIASES"
    by (simp add: NOTE_ALIASES_def)
  have l: "lower_cols sample_lib [ascii ''Note_ID'', ascii ''note_id''] (ascii ''note_id'')
     = Some (ascii ''note_id'')"
    by (simp add: lower_cols_def sample_lower)
  have "build_col_map sample_lib [ascii ''Note_ID'', ascii ''note_id''] NOTE_ALIASES (ascii ''note_id'')
     = Some (ascii ''note_id'')"
    by (simp add: build_col_map_field [OF NOTE_ALIASES_distinct m] l sample_lower)
      (simp add: ascii_def)
  with l show ?thesis by (simp add: ascii_def)
qed

text \<open>
  C5, amended. When header labels of one sheet are equal case-insensitively, the lookup
  built by alias resolution keeps the last occurrence: if \<open>h\<close> matches the alias \<open>a\<close> and no
  header after \<open>h\<close> does, the lookup under the lower-cased \<open>a\<close> is \<open>h\<close>, and every field
  whose first matching alias is \<open>a\<close> resolves to \<open>h\<close>.
\<close>

theorem lower_cols_keeps_last:
  "str_lower L h = str_lower L a \<and> (\<forall>y \<in> set ys. str_lower L y \<noteq> str_lower L a)
   \<longrightarrow> lower_cols L (xs @ h # ys) (str_lower L a) = Some h \<and>
       (distinct (map fst aliases) \<and> [] \<notin> set (xs @ h # ys) \<and>
          (field, pre @ a # post) \<in> set aliases \<and>
          (\<forall>b \<in> set pre. \<not> alias_matches L (xs @ h # ys) b)
        \<longrightarrow> build_col_map L (xs @ h # ys) aliases field = Some h)"
proof (intro impI conjI)
  assume h: "str_lower L h = str_lower L a \<and> (\<forall>y \<in> set ys. str_lower L y \<noteq> str_lower L a)"
  then have am: "alias_matches L (xs @ h # ys) a" by (auto simp: alias_matches_def)
  from h have lh: "last_header L (xs @ h # ys) a = h" by (simp add: last_header_split)
  from am lh show "lower_cols L (xs @ h # ys) (str_lower L a) = Some h"
    by (simp add: lower_cols_Some)
  assume "distinct (map fst aliases) \<and> [] \<notin> set (xs @ h # ys) \<and>
          (field, pre @ a # post) \<in> set aliases \<and>
          (\<forall>b \<in> set pre. \<not> alias_matches L (xs @ h # ys) b)"
  with am lh show "build_col_map L (xs @ h # ys) aliases field = Some h"
    by (simp add: build_col_map_field [of aliases field "pre @ a # post"] first_match_hit)
qed

theorem lower_cols_keeps_last_witness:
  "str_lower sample_lib (ascii ''note_id'') = str_lower sample_lib (ascii ''note_id'') \<and>
   lower_cols sample_lib ([ascii ''Note_ID''] @ ascii ''note_id'' # [])
      (str_lower sample_lib (ascii ''note_id'')) = Some (ascii ''note_id'') \<and>
   distinct (map fst NOTE_ALIASES) \<and> [] \<notin> set ([ascii ''Note_ID''] @ ascii ''note_id'' # []) \<and>
   (ascii ''note_id'',
      [] @ ascii ''note_id'' # [[0x7B14, 0x8BB0] @ ascii ''id'', [0x7B14, 0x8BB0] @ ascii ''ID''])
     \<in> set NOTE_ALIASES \<and>
   build_col_map sample_lib ([ascii ''Note_ID''] @ ascii ''note_id'' # []) NOTE_ALIASES
      (ascii ''note_id'') = Some (ascii ''note_id'')"
proof -
  have m: "(ascii ''note_id'',
      [] @ ascii ''note_id'' # [[0x7B14, 0x8BB0] @ ascii ''id'', [0x7B14, 0x8BB0] @ ascii ''ID''])
     \<in> set NOTE_ALIASES"
    by (simp add: NOTE_ALIASES_def)
  have ne: "[] \<notin> set ([ascii ''Note_ID''] @ ascii ''note_id'' # [])"
    by (simp add: ascii_def)
  from lower_cols_keeps_last [where L = sample_lib and h = "ascii ''note_id''"
      and a = "ascii ''note_id''" and ys = "[]" and xs = "[ascii ''Note_ID'']"
      and aliases = NOTE_ALIASES and field = "ascii ''note_id''" and pre = "[]"
      and post = "[[0x7B14, 0x8BB0] @ ascii ''id'', [0x7B14, 0x8BB0] @ ascii ''ID'']"]
    NOTE_ALIASES_distinct m ne
  show ?thesis by simp
qed

section \<open>Tag merge\<close>

lemma join_nonempty:
  "xs \<noteq> [] \<Longrightarrow> [] \<notin> set xs \<Longrightarrow> join sep xs \<noteq> []"
  by (induction sep xs rule: join.induct) auto

lemma extra_tags_eq:
  "extra_tags cols row cs = concat (map (\<lambda>c. if c \<in> set cols then text_tag (row c) else []) cs)"
  by (induction cs) (auto simp: text_tag_def split: option.splits pyval.splits)

lemma stripped_tags_nonempty: "[] \<notin> set (stripped_tags L cols col_map row)"
  by (auto simp: stripped_tags_def text_tag_def Let_def split: option.splits pyval.splits if_splits)

lemma merged_tag_list_eq:
  "merged_tag_list L cols col_map row =
     (if stripped_tags L cols col_map row = [] then PNone
      else PStr (join (ascii '' | '') (stripped_tags L cols col_map row)))"
  by (simp add: merged_tag_list_def stripped_tags_def extra_tags_eq Let_def)

lemma get_restrict:
  "get row (\<lambda>f. if f = field then col_map f else None) field d = get row col_map field d"
  by (simp add: get_def)

text \<open>
  C9 as claimed: the merged tag joins the resolved \<^verbatim>\<open>tag_list\<close> value and the non-blank
  values of the four auxiliary columns. A cell that is not text is not blank, yet the
  code leaves it out: a category cell holding the integer 5 gives a null tag where the
  claim gives \<^verbatim>\<open>"5"\<close>. And what is joined is the stripped text, not the value: the cell
  \<^verbatim>\<open>" a "\<close> contributes \<^verbatim>\<open>"a"\<close>.
\<close>

theorem tag_merge_not_all_values:
  "merged_tag_list sample_lib [[0x7B14, 0x8BB0, 0x5206, 0x7C7B]] Map.empty
      [[0x7B14, 0x8BB0, 0x5206, 0x7C7B] \<mapsto> PInt 5] = PNone \<and>
   spec_merged_tag sample_lib [[0x7B14, 0x8BB0, 0x5206, 0x7C7B]] Map.empty
      [[0x7B14, 0x8BB0, 0x5206, 0x7C7B] \<mapsto> PInt 5] = PStr (ascii ''5'') \<and>
   merged_tag_list sample_lib [[0x7B14, 0x8BB0, 0x5206, 0x7C7B]] Map.empty
      [[0x7B14, 0x8BB0, 0x5206, 0x7C7B] \<mapsto> PStr (ascii '' a '')] = PStr (ascii ''a'') \<and>
   spec_merged_tag sample_lib [[0x7B14, 0x8BB0, 0x5206, 0x7C7B]] Map.empty
      [[0x7B14, 0x8BB0, 0x5206, 0x7C7B] \<mapsto> PStr (ascii '' a '')] = PStr (ascii '' a '')"
  by (simp add: merged_tag_list_def spec_merged_tag_def spec_tag_values_def TAG_COLUMNS_def
      get_def blank_def isna_def strip_def is_space_def ascii_def str_of_int_def)

text \<open>
  C9, amended. For every Note row, the merged tag string is built from the ordered
  sequence (\<open>stripped_tags\<close>) that starts with the resolved \<^verbatim>\<open>tag_list\<close> value, converted to
  text and stripped, when it is present and not blank, followed in the fixed order by
  the stripped text of those of the four auxiliary columns whose cell is text and not
  blank (a cell of another type is ignored); the columns are looked up by their
  literal labels, and the column map is consulted for \<^verbatim>\<open>tag_list\<close> only. The sequence is
  joined with \<^verbatim>\<open>" | "\<close>; when it is empty the merged tag is null, and it is never the
  empty string.
\<close>

theorem tag_merge_stripped_text:
  "merged_tag_list L cols col_map row =
     (if stripped_tags L cols col_map row = [] then PNone
      else PStr (join (ascii '' | '') (stripped_tags L cols col_map row))) \<and>
   merged_tag_list L cols col_map row \<noteq> PStr [] \<and>
   merged_tag_list L cols col_map row =
     merged_tag_list L cols (\<lambda>f. if f = ascii ''tag_list'' then col_map f else None) row"
proof (intro conjI)
  show e: "merged_tag_list L cols col_map row =
     (if stripped_tags L cols col_map row = [] then PNone
      else PStr (join (ascii '' | '') (stripped_tags L cols col_map row)))"
    by (rule merged_tag_list_eq)
  show "merged_tag_list L cols col_map row \<noteq> PStr []"
    using join_nonempty [OF _ stripped_tags_nonempty, of L cols col_map row "ascii '' | ''"]
    by (simp add: e)
  show "merged_tag_list L cols col_map row =
     merged_tag_list L cols (\<lambda>f. if f = ascii ''tag_list'' then col_map f else None) row"
    by (simp add: merged_tag_list_def get_restrict)
qed

section \<open>Note rows\<close>

text \<open>A note row is skipped exactly when \<^verbatim>\<open>note_id\<close> resolved and its cell is falsy.\<close>

lemma note_row_skip_iff:
  "note_row L now_ms cols col_map idx row = Inr None \<longleftrightarrow>
     col_map (ascii ''note_id'') \<noteq> None \<and> \<not> truthy (get row col_map (ascii ''note_id'') PNone)"
  by (auto simp: note_row_def Let_def split: sum.splits)

text \<open>The identity fields of a record that a note row produces.\<close>

lemma note_row_fields:
  assumes "note_row L now_ms cols col_map idx row = Inr (Some obj)"
  shows "note_note_id obj =
           (if col_map (ascii ''note_id'') \<noteq> None
            then py_str L (get row col_map (ascii ''note_id'') PNone)
            else ascii ''row_'' @ str_of_int (int idx + 1))"
    and "note_user_id obj =
           (if truthy (get row col_map (ascii ''user_id'') PNone)
            then py_str L (get row col_map (ascii ''user_id'') PNone)
            else ascii ''unknown'')"
    and "note_tag_list obj = merged_tag_list L cols col_map row"
  using assms by (auto simp: note_row_def Let_def split: sum.splits if_splits)

text \<open>A note row raises only through a coercion, on an infinite cell.\<close>

lemma sum_not_Inl: "(\<And>e. x \<noteq> Inl e) \<Longrightarrow> \<exists>r. x = Inr r"
  by (cases x) auto

lemma note_row_produces:
  assumes "note_cells_finite L col_map row"
    and "\<not> (col_map (ascii ''note_id'') \<noteq> None \<and> \<not> truthy (get row col_map (ascii ''note_id'') PNone))"
  shows "\<exists>obj. note_row L now_ms cols col_map idx row = Inr (Some obj)"
proof -
  from assms(1) obtain t where t: "to_ts_ms L (get row col_map (ascii ''time'') PNone) (PInt now_ms) = Inr t"
    using sum_not_Inl [of "to_ts_ms L (get row col_map (ascii ''time'') PNone) (PInt now_ms)"]
    by (auto simp: note_cells_finite_def to_ts_ms_raises_iff)
  from assms(1) obtain c1 where c1: "count_str L row col_map (ascii ''liked_count'') = Inr c1"
    using sum_not_Inl [of "count_str L row col_map (ascii ''liked_count'')"]
    by (auto simp: note_cells_finite_def count_str_raises_iff)
  from assms(1) obtain c2 where c2: "count_str L row col_map (ascii ''collected_count'') = Inr c2"
    using sum_not_Inl [of "count_str L row col_map (ascii ''collected_count'')"]
    by (auto simp: note_cells_finite_def count_str_raises_iff)
  from assms(1) obtain c3 where c3: "count_str L row col_map (ascii ''comment_count'') = Inr c3"
    using sum_not_Inl [of "count_str L row col_map (ascii ''comment_count'')"]
    by (auto simp: note_cells_finite_def count_str_raises_iff)
  from assms(1) obtain c4 where c4: "count_str L row col_map (ascii ''share_count'') = Inr c4"
    using sum_not_Inl [of "count_str L row col_map (ascii ''share_count'')"]
    by (auto simp: note_cells_finite_def count_str_raises_iff)
  from assms(2) t c1 c2 c3 c4 show ?thesis
    by (auto simp: note_row_def Let_def)
qed

text \<open>
  The loop hands row \<open>i\<close> to \<open>note_row\<close> with index \<open>idx + i\<close>; when \<^verbatim>\<open>note_id\<close> did not
  resolve, no row is skipped and record \<open>i\<close> of the batch comes from row \<open>i\<close>.
\<close>

lemma notes_loop_synthesized:
  assumes "col_map (ascii ''note_id'') = None"
    and "notes_loop L now_ms cols col_map idx rs objs = Inr res"
  shows "\<exists>new. res = objs @ new \<and> length new = length rs \<and>
           (\<forall>i < length rs. note_note_id (new ! i) = ascii ''row_'' @ str_of_int (int (idx + i) + 1))"
  using assms(2)
proof (induction rs arbitrary: idx objs)
  case Nil
  then show ?case by simp
next
  case (Cons r rs)
  from assms(1) have ns: "note_row L now_ms cols col_map idx r \<noteq> Inr None"
    by (simp add: note_row_skip_iff)
  with Cons.prems obtain obj where
    o: "note_row L now_ms cols col_map idx r = Inr (Some obj)"
    and l: "notes_loop L now_ms cols col_map (Suc idx) rs (objs @ [obj]) = Inr res"
    by (auto split: sum.splits option.splits)
  from Cons.IH [OF l] obtain new where
    n: "res = (objs @ [obj]) @ new" "length new = length rs"
       "\<forall>i < length rs. note_note_id (new ! i) = ascii ''row_'' @ str_of_int (int (Suc idx + i) + 1)"
    by blast
  from note_row_fields(1) [OF o] assms(1)
  have h: "note_note_id obj = ascii ''row_'' @ str_of_int (int idx + 1)" by simp
  have "\<forall>i < length (r # rs).
          note_note_id ((obj # new) ! i) = ascii ''row_'' @ str_of_int (int (idx + i) + 1)"
  proof (intro allI impI)
    fix i assume "i < length (r # rs)"
    then show "note_note_id ((obj # new) ! i) = ascii ''row_'' @ str_of_int (int (idx + i) + 1)"
      using h n(3) by (cases i) auto
  qed
  with n(1,2) show ?case by (intro exI [of _ "obj # new"]) simp
qed

section \<open>Creator rows\<close>

lemma creator_obj_fields:
  assumes "creator_obj L now_ms col_map row s = Inr obj"
  shows "creator_user_id obj = s"
    and "creator_nickname obj = get row col_map (ascii ''nickname'') PNone"
  using assms by (auto simp: creator_obj_def split: sum.splits)

lemma creator_obj_produces:
  assumes "creator_cells_finite L col_map row"
  shows "\<exists>obj. creator_obj L now_ms col_map row s = Inr obj"
proof -
  from assms obtain c1 where c1: "count_str L row col_map (ascii ''follows'') = Inr c1"
    using sum_not_Inl [of "count_str L row col_map (ascii ''follows'')"]
    by (auto simp: creator_cells_finite_def count_str_raises_iff)
  from assms obtain c2 where c2: "count_str L row col_map (ascii ''fans'') = Inr c2"
    using sum_not_Inl [of "count_str L row col_map (ascii ''fans'')"]
    by (auto simp: creator_cells_finite_def count_str_raises_iff)
  from assms obtain c3 where c3: "count_str L row col_map (ascii ''interaction'') = Inr c3"
    using sum_not_Inl [of "count_str L row col_map (ascii ''interaction'')"]
    by (auto simp: creator_cells_finite_def count_str_raises_iff)
  from c1 c2 c3 show ?thesis by (simp add: creator_obj_def)
qed

text \<open>
  The invariant of the creator loop. Every record added has a \<^verbatim>\<open>user_id\<close> outside the
  set seen so far, and comes from a row with a truthy \<^verbatim>\<open>user_id\<close> cell before which no
  row with a truthy cell has the same text; every row with a truthy cell has its text in
  the set or among the records.
\<close>

lemma first_row_of_Cons:
  assumes "first_row_of L now_ms col_map rs obj"
    and "truthy (get r0 col_map (ascii ''user_id'') PNone) \<longrightarrow>
         py_str L (get r0 col_map (ascii ''user_id'') PNone) \<noteq> creator_user_id obj"
  shows "first_row_of L now_ms col_map (r0 # rs) obj"
proof -
  from assms(1) obtain pre r post where
    h: "rs = pre @ r # post" "truthy (get r col_map (ascii ''user_id'') PNone)"
       "py_str L (get r col_map (ascii ''user_id'') PNone) = creator_user_id obj"
       "\<forall>p \<in> set pre. truthy (get p col_map (ascii ''user_id'') PNone) \<longrightarrow>
            py_str L (get p col_map (ascii ''user_id'') PNone) \<noteq> creator_user_id obj"
       "creator_obj L now_ms col_map r (creator_user_id obj) = Inr obj"
    unfolding first_row_of_def by blast
  have "r0 # rs = (r0 # pre) @ r # post" using h(1) by simp
  moreover have "\<forall>p \<in> set (r0 # pre). truthy (get p col_map (ascii ''user_id'') PNone) \<longrightarrow>
            py_str L (get p col_map (ascii ''user_id'') PNone) \<noteq> creator_user_id obj"
    using h(4) assms(2) by simp
  ultimately show ?thesis unfolding first_row_of_def using h(2,3,5) by blast
qed

lemma creators_loop_invariant:
  assumes "creators_loop L now_ms col_map rs seen objs = Inr res"
  shows "\<exists>new. res = objs @ new \<and> distinct (map creator_user_id new) \<and>
           (\<forall>obj \<in> set new. creator_user_id obj \<notin> seen \<and> first_row_of L now_ms col_map rs obj) \<and>
           (\<forall>r \<in> set rs. truthy (get r col_map (ascii ''user_id'') PNone) \<longrightarrow>
               py_str L (get r col_map (ascii ''user_id'') PNone) \<in> seen \<union> creator_user_id ` set new)"
  using assms
proof (induction rs arbitrary: seen objs)
  case Nil
  then show ?case by simp
next
  case (Cons r0 rs)
  let ?u = "get r0 col_map (ascii ''user_id'') PNone"
  let ?k = "py_str L ?u"
  show ?case
  proof (cases "\<not> truthy ?u \<or> ?k \<in> seen")
    case True
    with Cons.prems have l: "creators_loop L now_ms col_map rs seen objs = Inr res"
      by (auto simp: Let_def split: if_splits)
    from Cons.IH [OF l] obtain new where
      n: "res = objs @ new" "distinct (map creator_user_id new)"
         "\<forall>obj \<in> set new. creator_user_id obj \<notin> seen \<and> first_row_of L now_ms col_map rs obj"
         "\<forall>r \<in> set rs. truthy (get r col_map (ascii ''user_id'') PNone) \<longrightarrow>
               py_str L (get r col_map (ascii ''user_id'') PNone) \<in> seen \<union> creator_user_id ` set new"
      by blast
    have "\<forall>obj \<in> set new. creator_user_id obj \<notin> seen \<and> first_row_of L now_ms col_map (r0 # rs) obj"
    proof
      fix obj assume o: "obj \<in> set new"
      with n(3) have a: "creator_user_id obj \<notin> seen" and b: "first_row_of L now_ms col_map rs obj"
        by auto
      from True a have "truthy ?u \<longrightarrow> ?k \<noteq> creator_user_id obj" by auto
      from first_row_of_Cons [OF b this] a
      show "creator_user_id obj \<notin> seen \<and> first_row_of L now_ms col_map (r0 # rs) obj" by simp
    qed
    moreover have "\<forall>r \<in> set (r0 # rs). truthy (get r col_map (ascii ''user_id'') PNone) \<longrightarrow>
               py_str L (get r col_map (ascii ''user_id'') PNone) \<in> seen \<union> creator_user_id ` set new"
      using n(4) True by auto
    ultimately show ?thesis using n(1,2) by blast
  next
    case False
    then have t: "truthy ?u" and ns: "?k \<notin> seen" by auto
    with Cons.prems obtain obj0 where
      o: "creator_obj L now_ms col_map r0 ?k = Inr obj0"
      and l: "creators_loop L now_ms col_map rs (insert ?k seen) (objs @ [obj0]) = Inr res"
      by (auto simp: Let_def split: sum.splits if_splits)
    from creator_obj_fields(1) [OF o] have id0: "creator_user_id obj0 = ?k" .
    from Cons.IH [OF l] obtain new where
      n: "res = (objs @ [obj0]) @ new" "distinct (map creator_user_id new)"
         "\<forall>obj \<in> set new. creator_user_id obj \<notin> insert ?k seen \<and> first_row_of L now_ms col_map rs obj"
         "\<forall>r \<in> set rs. truthy (get r col_map (ascii ''user_id'') PNone) \<longrightarrow>
               py_str L (get r col_map (ascii ''user_id'') PNone)
                 \<in> insert ?k seen \<union> creator_user_id ` set new"
      by blast
    have f0: "first_row_of L now_ms col_map (r0 # rs) obj0"
      unfolding first_row_of_def
      using t o id0 by (intro exI [of _ "[]"] exI [of _ r0] exI [of _ rs]) simp
    have "\<forall>obj \<in> set (obj0 # new).
            creator_user_id obj \<notin> seen \<and> first_row_of L now_ms col_map (r0 # rs) obj"
    proof
      fix obj assume "obj \<in> set (obj0 # new)"
      then consider "obj = obj0" | "obj \<in> set new" by auto
      then show "creator_user_id obj \<notin> seen \<and> first_row_of L now_ms col_map (r0 # rs) obj"
      proof cases
        case 1
        with f0 id0 ns show ?thesis by simp
      next
        case 2
        with n(3) have a: "creator_user_id obj \<notin> insert ?k seen"
          and b: "first_row_of L now_ms col_map rs obj" by auto
        from a have "truthy ?u \<longrightarrow> ?k \<noteq> creator_user_id obj" by auto
        from first_row_of_Cons [OF b this] a show ?thesis by simp
      qed
    qed
    moreover have "distinct (map creator_user_id (obj0 # new))"
      using n(2,3) id0 by auto
    moreover have "\<forall>r \<in> set (r0 # rs). truthy (get r col_map (ascii ''user_id'') PNone) \<longrightarrow>
               py_str L (get r col_map (ascii ''user_id'') PNone)
                 \<in> seen \<union> creator_user_id ` set (obj0 # new)"
      using n(4) id0 by auto
    moreover have "res = objs @ (obj0 # new)" using n(1) by simp
    ultimately show ?thesis by blast
  qed
qed

lemma creators_loop_returns:
  assumes "\<forall>r \<in> set rs. creator_cells_finite L col_map r"
  shows "\<exists>res. creators_loop L now_ms col_map rs seen objs = Inr res"
  using assms
proof (induction rs arbitrary: seen objs)
  case Nil
  show ?case by simp
next
  case (Cons r0 rs)
  then have f: "creator_cells_finite L col_map r0"
    and r: "\<forall>r \<in> set rs. creator_cells_finite L col_map r" by auto
  from creator_obj_produces [OF f] obtain obj where
    "creator_obj L now_ms col_map r0 (py_str L (get r0 col_map (ascii ''user_id'') PNone)) = Inr obj"
    by blast
  with Cons.IH [OF r] show ?case by (auto simp: Let_def)
qed

section \<open>Comment rows, and loops that return\<close>

text \<open>A comment row is skipped exactly when one of its two identity cells is falsy.\<close>

lemma comment_row_skip_iff:
  "comment_row L now_ms col_map row = Inr None \<longleftrightarrow>
     \<not> truthy (get row col_map (ascii ''comment_id'') PNone) \<or>
     \<not> truthy (get row col_map (ascii ''note_id'') PNone)"
  by (auto simp: comment_row_def Let_def split: sum.splits)

lemma comment_row_fields:
  assumes "comment_row L now_ms col_map row = Inr (Some obj)"
  shows "comment_comment_id obj = py_str L (get row col_map (ascii ''comment_id'') PNone)"
    and "comment_note_id obj = py_str L (get row col_map (ascii ''note_id'') PNone)"
  using assms by (auto simp: comment_row_def Let_def split: sum.splits if_splits)

lemma comment_row_produces:
  assumes "comment_cells_finite L col_map row"
    and "truthy (get row col_map (ascii ''comment_id'') PNone)"
    and "truthy (get row col_map (ascii ''note_id'') PNone)"
  shows "\<exists>obj. comment_row L now_ms col_map row = Inr (Some obj)"
proof -
  from assms(1) obtain t where
    t: "to_ts_ms L (get row col_map (ascii ''create_time'') PNone) (PInt now_ms) = Inr t"
    using sum_not_Inl [of "to_ts_ms L (get row col_map (ascii ''create_time'') PNone) (PInt now_ms)"]
    by (auto simp: comment_cells_finite_def to_ts_ms_raises_iff)
  from assms(1) obtain s where
    s: "to_int L (get row col_map (ascii ''sub_comment_count'') PNone) (PInt 0) = Inr s"
    using sum_not_Inl [of "to_int L (get row col_map (ascii ''sub_comment_count'') PNone) (PInt 0)"]
    by (auto simp: comment_cells_finite_def to_int_raises_iff)
  from assms(1) obtain c where c: "count_str L row col_map (ascii ''like_count'') = Inr c"
    using sum_not_Inl [of "count_str L row col_map (ascii ''like_count'')"]
    by (auto simp: comment_cells_finite_def count_str_raises_iff)
  from assms(2,3) t s c show ?thesis by (simp add: comment_row_def Let_def)
qed

text \<open>
  The batch of the comment loop: the records of the rows with both identity cells
  truthy, in row order.
\<close>

lemma comments_loop_batch:
  assumes "comments_loop L now_ms col_map rs objs = Inr res"
  shows "\<exists>new. res = objs @ new \<and>
           list_all2 (\<lambda>r obj. comment_row L now_ms col_map r = Inr (Some obj))
             (filter (\<lambda>r. truthy (get r col_map (ascii ''comment_id'') PNone) \<and>
                          truthy (get r col_map (ascii ''note_id'') PNone)) rs)
             new"
  using assms
proof (induction rs arbitrary: objs)
  case Nil
  then show ?case by simp
next
  case (Cons r rs)
  show ?case
  proof (cases "comment_row L now_ms col_map r")
    case (Inl e)
    with Cons.prems show ?thesis by simp
  next
    case (Inr out)
    show ?thesis
    proof (cases out)
      case None
      with Inr Cons.prems have l: "comments_loop L now_ms col_map rs objs = Inr res" by simp
      from Inr None have "\<not> (truthy (get r col_map (ascii ''comment_id'') PNone) \<and>
                          truthy (get r col_map (ascii ''note_id'') PNone))"
        by (simp add: comment_row_skip_iff)
      with Cons.IH [OF l] show ?thesis by auto
    next
      case (Some obj)
      with Inr Cons.prems have l: "comments_loop L now_ms col_map rs (objs @ [obj]) = Inr res"
        by simp
      from Inr Some have "comment_row L now_ms col_map r \<noteq> Inr None" by simp
      then have k: "truthy (get r col_map (ascii ''comment_id'') PNone) \<and>
                          truthy (get r col_map (ascii ''note_id'') PNone)"
        by (simp add: comment_row_skip_iff)
      from Cons.IH [OF l] obtain new where
        n: "res = (objs @ [obj]) @ new"
           "list_all2 (\<lambda>r obj. comment_row L now_ms col_map r = Inr (Some obj))
             (filter (\<lambda>r. truthy (get r col_map (ascii ''comment_id'') PNone) \<and>
                          truthy (get r col_map (ascii ''note_id'') PNone)) rs) new"
        by blast
      from n k Inr Some show ?thesis by (intro exI [of _ "obj # new"]) simp
    qed
  qed
qed

lemma comments_loop_returns:
  assumes "\<forall>r \<in> set rs. comment_cells_finite L col_map r"
  shows "\<exists>res. comments_loop L now_ms col_map rs objs = Inr res"
  using assms
proof (induction rs arbitrary: objs)
  case Nil
  show ?case by simp
next
  case (Cons r rs)
  then have f: "comment_cells_finite L col_map r"
    and rest: "\<forall>r \<in> set rs. comment_cells_finite L col_map r" by auto
  show ?case
  proof (cases "truthy (get r col_map (ascii ''comment_id'') PNone) \<and>
                truthy (get r col_map (ascii ''note_id'') PNone)")
    case True
    with comment_row_produces [OF f, of now_ms] obtain obj where
      "comment_row L now_ms col_map r = Inr (Some obj)" by blast
    with Cons.IH [OF rest] show ?thesis by simp
  next
    case False
    then have "comment_row L now_ms col_map r = Inr None" by (simp add: comment_row_skip_iff)
    with Cons.IH [OF rest] show ?thesis by simp
  qed
qed

lemma notes_loop_returns:
  assumes "\<forall>r \<in> set rs. note_cells_finite L col_map r"
  shows "\<exists>res. notes_loop L now_ms cols col_map idx rs objs = Inr res"
  using assms
proof (induction rs arbitrary: idx objs)
  case Nil
  show ?case by simp
next
  case (Cons r rs)
  then have f: "note_cells_finite L col_map r"
    and rest: "\<forall>r \<in> set rs. note_cells_finite L col_map r" by auto
  show ?case
  proof (cases "col_map (ascii ''note_id'') \<noteq> None \<and>
                \<not> truthy (get r col_map (ascii ''note_id'') PNone)")
    case True
    then have "note_row L now_ms cols col_map idx r = Inr None" by (simp add: note_row_skip_iff)
    with Cons.IH [OF rest] show ?thesis by simp
  next
    case False
    from note_row_produces [OF f False, of now_ms cols idx] obtain obj where
      "note_row L now_ms cols col_map idx r = Inr (Some obj)" by blast
    with Cons.IH [OF rest] show ?thesis by simp
  qed
qed

section \<open>The row policies\<close>

lemma str_of_int_4: "str_of_int 4 = ascii ''4''"
  by (simp add: str_of_int_def ascii_def)


lemma get_cell:
  "col_map field = Some c \<Longrightarrow> c \<noteq> [] \<Longrightarrow> row c = Some v \<Longrightarrow> \<not> isna v \<Longrightarrow>
   get row col_map field d = v"
  by (simp add: get_def)

text \<open>
  The identity policy of note rows, as far as the code follows it: if \<^verbatim>\<open>note_id\<close> resolved
  to a column, a row whose \<^verbatim>\<open>note_id\<close> cell is
  empty is skipped and produces no record; if \<^verbatim>\<open>note_id\<close> did not resolve, no row is
  skipped, the record of the row at index \<open>idx\<close> has \<^verbatim>\<open>note_id\<close> \<^verbatim>\<open>"row_"\<close> followed by
  \<open>idx + 1\<close>, and in the batch of a sheet the record at zero-based position 3 has
  \<^verbatim>\<open>"row_4"\<close>; a missing or empty \<^verbatim>\<open>user_id\<close> becomes \<^verbatim>\<open>"unknown"\<close> and never causes a skip, the
  skip depending on the \<^verbatim>\<open>note_id\<close> column alone. A row that is not skipped produces its
  record, and the sheet its batch, only when the coerced cells are finite
  (\<open>note_row_produces\<close>); otherwise it raises (\<open>note_row_raises\<close>).
\<close>

lemma note_rows_policy:
  "(col_map (ascii ''note_id'') \<noteq> None \<and> \<not> truthy (get row col_map (ascii ''note_id'') PNone)
      \<longrightarrow> note_row L now_ms cols col_map idx row = Inr None) \<and>
   (col_map (ascii ''note_id'') = None
      \<longrightarrow> note_row L now_ms cols col_map idx row \<noteq> Inr None) \<and>
   (col_map (ascii ''note_id'') = None \<and> note_row L now_ms cols col_map idx row = Inr (Some obj)
      \<longrightarrow> note_note_id obj = ascii ''row_'' @ str_of_int (int idx + 1)) \<and>
   (build_col_map L (columns df) NOTE_ALIASES (ascii ''note_id'') = None \<and> \<not> df_empty df \<and>
      import_notes L now_ms (Some df) = Inr res
      \<longrightarrow> length res = length (rows df) \<and>
          (\<forall>i. i < length (rows df)
             \<longrightarrow> note_note_id (res ! i) = ascii ''row_'' @ str_of_int (int i + 1)) \<and>
          (3 < length (rows df) \<longrightarrow> note_note_id (res ! 3) = ascii ''row_4'')) \<and>
   (note_row L now_ms cols col_map idx row = Inr (Some obj) \<and>
      \<not> truthy (get row col_map (ascii ''user_id'') PNone)
      \<longrightarrow> note_user_id obj = ascii ''unknown'') \<and>
   ((note_row L now_ms cols col_map idx row = Inr None) =
      (col_map (ascii ''note_id'') \<noteq> None \<and> \<not> truthy (get row col_map (ascii ''note_id'') PNone))) \<and>
   (note_cells_finite L col_map row \<and>
      \<not> (col_map (ascii ''note_id'') \<noteq> None \<and> \<not> truthy (get row col_map (ascii ''note_id'') PNone))
      \<longrightarrow> (\<exists>out. note_row L now_ms cols col_map idx row = Inr (Some out))) \<and>
   ((\<forall>r \<in> set (rows df). note_cells_finite L (build_col_map L (columns df) NOTE_ALIASES) r)
      \<longrightarrow> (\<exists>batch. import_notes L now_ms (Some df) = Inr batch))"
proof (intro conjI impI)
  assume "col_map (ascii ''note_id'') \<noteq> None \<and> \<not> truthy (get row col_map (ascii ''note_id'') PNone)"
  then show "note_row L now_ms cols col_map idx row = Inr None" by (simp add: note_row_skip_iff)
next
  assume "col_map (ascii ''note_id'') = None"
  then show "note_row L now_ms cols col_map idx row \<noteq> Inr None" by (simp add: note_row_skip_iff)
next
  assume "col_map (ascii ''note_id'') = None \<and> note_row L now_ms cols col_map idx row = Inr (Some obj)"
  then show "note_note_id obj = ascii ''row_'' @ str_of_int (int idx + 1)"
    using note_row_fields(1) [of L now_ms cols col_map idx row obj] by simp
next
  assume h: "build_col_map L (columns df) NOTE_ALIASES (ascii ''note_id'') = None \<and> \<not> df_empty df \<and>
      import_notes L now_ms (Some df) = Inr res"
  then have l: "notes_loop L now_ms (columns df) (build_col_map L (columns df) NOTE_ALIASES) 0
                  (rows df) [] = Inr res"
    by (auto simp: import_notes_def Let_def)
  from h notes_loop_synthesized [OF _ l] obtain new where
    n: "res = [] @ new" "length new = length (rows df)"
       "\<forall>i < length (rows df). note_note_id (new ! i) = ascii ''row_'' @ str_of_int (int (0 + i) + 1)"
    by blast
  from n show len: "length res = length (rows df)" by simp
  from n show all: "\<forall>i. i < length (rows df)
             \<longrightarrow> note_note_id (res ! i) = ascii ''row_'' @ str_of_int (int i + 1)" by simp
  assume "3 < length (rows df)"
  with all show "note_note_id (res ! 3) = ascii ''row_4''"
    using str_of_int_4 by (auto simp: ascii_def)
next
  assume "note_row L now_ms cols col_map idx row = Inr (Some obj) \<and>
      \<not> truthy (get row col_map (ascii ''user_id'') PNone)"
  then show "note_user_id obj = ascii ''unknown''"
    using note_row_fields(2) [of L now_ms cols col_map idx row obj] by simp
next
  show "(note_row L now_ms cols col_map idx row = Inr None) =
      (col_map (ascii ''note_id'') \<noteq> None \<and> \<not> truthy (get row col_map (ascii ''note_id'') PNone))"
    by (rule note_row_skip_iff)
next
  assume "note_cells_finite L col_map row \<and>
      \<not> (col_map (ascii ''note_id'') \<noteq> None \<and> \<not> truthy (get row col_map (ascii ''note_id'') PNone))"
  then show "\<exists>out. note_row L now_ms cols col_map idx row = Inr (Some out)"
    using note_row_produces [of L col_map row now_ms cols idx] by blast
next
  assume "\<forall>r \<in> set (rows df). note_cells_finite L (build_col_map L (columns df) NOTE_ALIASES) r"
  then show "\<exists>batch. import_notes L now_ms (Some df) = Inr batch"
    using notes_loop_returns [of "rows df" L "build_col_map L (columns df) NOTE_ALIASES"
        now_ms "columns df" 0 "[]"]
    by (simp add: import_notes_def Let_def)
qed

text \<open>
  The requirements of the comment section, as far as the code follows them: if
  \<^verbatim>\<open>comment_id\<close> or \<^verbatim>\<open>note_id\<close> does not resolve to a column,
  the Comment batch is empty and the run is the run without a comment sheet, so the
  other entities proceed; when both resolve, a row is skipped exactly when one of the
  two cells is empty, a row with both cells non-empty yields a record carrying the two
  cells as text, and the batch holds the records of those rows in order. So a sheet
  with one valid row and then a row whose \<^verbatim>\<open>comment_id\<close> is missing yields one record and
  one skip. A row yields its record only when its coerced cells are finite
  (\<open>comment_row_produces\<close>); otherwise it raises (\<open>comment_row_raises\<close>).
\<close>

lemma comment_rows_policy:
  "(build_col_map L (columns df) COMMENT_ALIASES (ascii ''comment_id'') = None \<or>
    build_col_map L (columns df) COMMENT_ALIASES (ascii ''note_id'') = None
      \<longrightarrow> import_comments L now_ms (Some df) = Inr [] \<and>
          import_from_excel L now_ms dc dn (Some df) = import_from_excel L now_ms dc dn None) \<and>
   ((comment_row L now_ms col_map row = Inr None) =
      (\<not> truthy (get row col_map (ascii ''comment_id'') PNone) \<or>
       \<not> truthy (get row col_map (ascii ''note_id'') PNone))) \<and>
   (truthy (get row col_map (ascii ''comment_id'') PNone) \<and>
    truthy (get row col_map (ascii ''note_id'') PNone) \<and> comment_cells_finite L col_map row
      \<longrightarrow> (\<exists>obj. comment_row L now_ms col_map row = Inr (Some obj) \<and>
                 comment_comment_id obj = py_str L (get row col_map (ascii ''comment_id'') PNone) \<and>
                 comment_note_id obj = py_str L (get row col_map (ascii ''note_id'') PNone))) \<and>
   (comments_loop L now_ms col_map rs [] = Inr res
      \<longrightarrow> list_all2 (\<lambda>r obj. comment_row L now_ms col_map r = Inr (Some obj))
            (filter (\<lambda>r. truthy (get r col_map (ascii ''comment_id'') PNone) \<and>
                         truthy (get r col_map (ascii ''note_id'') PNone)) rs)
            res) \<and>
   (truthy (get r1 col_map (ascii ''comment_id'') PNone) \<and>
    truthy (get r1 col_map (ascii ''note_id'') PNone) \<and> comment_cells_finite L col_map r1 \<and>
    \<not> truthy (get r2 col_map (ascii ''comment_id'') PNone)
      \<longrightarrow> (\<exists>obj. comments_loop L now_ms col_map [r1, r2] [] = Inr [obj] \<and>
                 comment_row L now_ms col_map r1 = Inr (Some obj) \<and>
                 comment_row L now_ms col_map r2 = Inr None))"
proof (intro conjI impI)
  assume h: "build_col_map L (columns df) COMMENT_ALIASES (ascii ''comment_id'') = None \<or>
    build_col_map L (columns df) COMMENT_ALIASES (ascii ''note_id'') = None"
  then show e: "import_comments L now_ms (Some df) = Inr []"
    by (auto simp: import_comments_def Let_def)
  have "import_comments L now_ms None = Inr []" by (simp add: import_comments_def)
  with e show "import_from_excel L now_ms dc dn (Some df) = import_from_excel L now_ms dc dn None"
    by (simp add: import_from_excel_def split: sum.splits)
next
  show "(comment_row L now_ms col_map row = Inr None) =
      (\<not> truthy (get row col_map (ascii ''comment_id'') PNone) \<or>
       \<not> truthy (get row col_map (ascii ''note_id'') PNone))"
    by (rule comment_row_skip_iff)
next
  assume h: "truthy (get row col_map (ascii ''comment_id'') PNone) \<and>
    truthy (get row col_map (ascii ''note_id'') PNone) \<and> comment_cells_finite L col_map row"
  with comment_row_produces [of L col_map row now_ms] obtain obj where
    o: "comment_row L now_ms col_map row = Inr (Some obj)" by blast
  with comment_row_fields [OF o]
  show "\<exists>obj. comment_row L now_ms col_map row = Inr (Some obj) \<and>
                 comment_comment_id obj = py_str L (get row col_map (ascii ''comment_id'') PNone) \<and>
                 comment_note_id obj = py_str L (get row col_map (ascii ''note_id'') PNone)"
    by blast
next
  assume "comments_loop L now_ms col_map rs [] = Inr res"
  from comments_loop_batch [OF this]
  show "list_all2 (\<lambda>r obj. comment_row L now_ms col_map r = Inr (Some obj))
            (filter (\<lambda>r. truthy (get r col_map (ascii ''comment_id'') PNone) \<and>
                         truthy (get r col_map (ascii ''note_id'') PNone)) rs)
            res"
    by simp
next
  assume h: "truthy (get r1 col_map (ascii ''comment_id'') PNone) \<and>
    truthy (get r1 col_map (ascii ''note_id'') PNone) \<and> comment_cells_finite L col_map r1 \<and>
    \<not> truthy (get r2 col_map (ascii ''comment_id'') PNone)"
  with comment_row_produces [of L col_map r1 now_ms] obtain obj where
    o: "comment_row L now_ms col_map r1 = Inr (Some obj)" by blast
  from h have s: "comment_row L now_ms col_map r2 = Inr None" by (simp add: comment_row_skip_iff)
  from o s show "\<exists>obj. comments_loop L now_ms col_map [r1, r2] [] = Inr [obj] \<and>
                 comment_row L now_ms col_map r1 = Inr (Some obj) \<and>
                 comment_row L now_ms col_map r2 = Inr None"
    by simp
qed


text \<open>
  De-duplication of creator rows, as far as the code follows it: among the rows that carry a \<^verbatim>\<open>user_id\<close> (the
  cell is not empty), rows whose \<^verbatim>\<open>user_id\<close> cells are equal as text give one record, built
  from the first of them: the \<^verbatim>\<open>user_id\<close> values of the batch are pairwise distinct, every
  record of the batch is the record of the first row carrying its \<^verbatim>\<open>user_id\<close>
  (\<open>first_row_of\<close>), and every \<^verbatim>\<open>user_id\<close> carried by a row is in the batch. Two rows with
  \<^verbatim>\<open>user_id\<close> \<open>u\<close> yield exactly one record, with the nickname of the first. The batch is
  produced only when the coerced cells are finite (\<open>creator_obj_produces\<close>); otherwise the
  constructor call raises (\<open>creator_obj_raises\<close>).
\<close>

lemma creator_rows_first_wins:
  "(import_creators L now_ms (Some df) = Inr res
      \<longrightarrow> distinct (map creator_user_id res) \<and>
          (\<forall>obj \<in> set res.
              first_row_of L now_ms (build_col_map L (columns df) CREATOR_ALIASES) (rows df) obj) \<and>
          (\<forall>r \<in> set (rows df).
              truthy (get r (build_col_map L (columns df) CREATOR_ALIASES) (ascii ''user_id'') PNone)
              \<longrightarrow> py_str L (get r (build_col_map L (columns df) CREATOR_ALIASES)
                              (ascii ''user_id'') PNone)
                    \<in> creator_user_id ` set res)) \<and>
   ((\<forall>r \<in> set (rows df). creator_cells_finite L (build_col_map L (columns df) CREATOR_ALIASES) r)
      \<longrightarrow> (\<exists>batch. import_creators L now_ms (Some df) = Inr batch)) \<and>
   (get r1 col_map (ascii ''user_id'') PNone = PStr u \<and>
    get r2 col_map (ascii ''user_id'') PNone = PStr u \<and> u \<noteq> [] \<and>
    creator_cells_finite L col_map r1
      \<longrightarrow> (\<exists>obj. creators_loop L now_ms col_map [r1, r2] {} [] = Inr [obj] \<and>
                 creator_user_id obj = u \<and>
                 creator_nickname obj = get r1 col_map (ascii ''nickname'') PNone))"
proof -
  let ?cm = "build_col_map L (columns df) CREATOR_ALIASES"
  have P1: "import_creators L now_ms (Some df) = Inr res
      \<longrightarrow> distinct (map creator_user_id res) \<and>
          (\<forall>obj \<in> set res. first_row_of L now_ms ?cm (rows df) obj) \<and>
          (\<forall>r \<in> set (rows df).
              truthy (get r ?cm (ascii ''user_id'') PNone)
              \<longrightarrow> py_str L (get r ?cm (ascii ''user_id'') PNone) \<in> creator_user_id ` set res)"
  proof
    assume h: "import_creators L now_ms (Some df) = Inr res"
    show "distinct (map creator_user_id res) \<and>
          (\<forall>obj \<in> set res. first_row_of L now_ms ?cm (rows df) obj) \<and>
          (\<forall>r \<in> set (rows df).
              truthy (get r ?cm (ascii ''user_id'') PNone)
              \<longrightarrow> py_str L (get r ?cm (ascii ''user_id'') PNone) \<in> creator_user_id ` set res)"
    proof (cases "df_empty df \<or> ?cm (ascii ''user_id'') = None")
      case True
      with h have r: "res = []" by (auto simp: import_creators_def Let_def split: if_splits)
      have "?cm (ascii ''user_id'') = None \<Longrightarrow> get r ?cm (ascii ''user_id'') PNone = PNone" for r
        by (simp add: get_def)
      moreover have "columns df = [] \<Longrightarrow> ?cm (ascii ''user_id'') = None"
        by (simp add: build_col_map_def lower_cols_def CREATOR_ALIASES_def)
      ultimately have "\<forall>r \<in> set (rows df). \<not> truthy (get r ?cm (ascii ''user_id'') PNone)"
        using True by (auto simp: df_empty_def)
      with r show ?thesis by simp
    next
      case False
      with h have l: "creators_loop L now_ms ?cm (rows df) {} [] = Inr res"
        by (auto simp: import_creators_def Let_def split: if_splits)
      from creators_loop_invariant [OF l] show ?thesis by auto
    qed
  qed
  have P2: "(\<forall>r \<in> set (rows df). creator_cells_finite L ?cm r)
      \<longrightarrow> (\<exists>batch. import_creators L now_ms (Some df) = Inr batch)"
    using creators_loop_returns [of "rows df" L ?cm now_ms "{}" "[]"]
    by (simp add: import_creators_def Let_def)
  have P3: "get r1 col_map (ascii ''user_id'') PNone = PStr u \<and>
    get r2 col_map (ascii ''user_id'') PNone = PStr u \<and> u \<noteq> [] \<and>
    creator_cells_finite L col_map r1
      \<longrightarrow> (\<exists>obj. creators_loop L now_ms col_map [r1, r2] {} [] = Inr [obj] \<and>
                 creator_user_id obj = u \<and>
                 creator_nickname obj = get r1 col_map (ascii ''nickname'') PNone)"
  proof
    assume h: "get r1 col_map (ascii ''user_id'') PNone = PStr u \<and>
      get r2 col_map (ascii ''user_id'') PNone = PStr u \<and> u \<noteq> [] \<and>
      creator_cells_finite L col_map r1"
    with creator_obj_produces [of L col_map r1 now_ms u] obtain obj where
      o: "creator_obj L now_ms col_map r1 u = Inr obj" by blast
    from h o creator_obj_fields [OF o]
    show "\<exists>obj. creators_loop L now_ms col_map [r1, r2] {} [] = Inr [obj] \<and>
                 creator_user_id obj = u \<and>
                 creator_nickname obj = get r1 col_map (ascii ''nickname'') PNone"
      by (simp add: Let_def)
  qed
  show ?thesis by (rule conjI [OF P1 conjI [OF P2 P3]])
qed

section \<open>The examples, evaluated\<close>

lemma creators_example_col_map:
  "build_col_map sample_lib (columns creators_example) CREATOR_ALIASES =
     [ascii ''user_id'' \<mapsto> ascii ''user_id'', ascii ''nickname'' \<mapsto> ascii ''nickname'']"
  by (simp add: build_col_map_def lower_cols_def CREATOR_ALIASES_def creators_example_def
      sample_lib_def lower_cp_def ascii_def)

lemma notes_example_fields:
  "build_col_map sample_lib (columns notes_example) NOTE_ALIASES (ascii ''note_id'') = None"
  "build_col_map sample_lib (columns notes_example) NOTE_ALIASES (ascii ''user_id'') = None"
  "build_col_map sample_lib (columns notes_example) NOTE_ALIASES (ascii ''time'') = None"
  "build_col_map sample_lib (columns notes_example) NOTE_ALIASES (ascii ''liked_count'') = None"
  "build_col_map sample_lib (columns notes_example) NOTE_ALIASES (ascii ''collected_count'') = None"
  "build_col_map sample_lib (columns notes_example) NOTE_ALIASES (ascii ''comment_count'') = None"
  "build_col_map sample_lib (columns notes_example) NOTE_ALIASES (ascii ''share_count'') = None"
  unfolding build_col_map_map_of [OF NOTE_ALIASES_distinct]
  by (simp_all add: NOTE_ALIASES_def lower_cols_def notes_example_def sample_lib_def
      lower_cp_def ascii_def)

lemma get_unresolved: "col_map field = None \<Longrightarrow> get row col_map field d = d"
  by (simp add: get_def)

lemma not_infinite_PNone: "\<not> infinite_cell L PNone"
  by (simp add: infinite_cell_def)

lemma comments_example_col_map:
  "build_col_map sample_lib (columns comments_example) COMMENT_ALIASES =
     [ascii ''comment_id'' \<mapsto> ascii ''comment_id'', ascii ''note_id'' \<mapsto> ascii ''note_id'']"
  by (simp add: build_col_map_def lower_cols_def COMMENT_ALIASES_def comments_example_def
      sample_lib_def lower_cp_def ascii_def)

lemma notes_example_no_comment_id:
  "build_col_map sample_lib (columns notes_example) COMMENT_ALIASES (ascii ''comment_id'') = None"
  by (simp add: build_col_map_def lower_cols_def COMMENT_ALIASES_def notes_example_def
      sample_lib_def lower_cp_def ascii_def)

lemma creators_example_batch:
  "(\<exists>obj. import_creators sample_lib 1000 (Some creators_example) = Inr [obj] \<and>
      creator_user_id obj = ascii ''u1'' \<and> creator_nickname obj = PStr (ascii ''A'') \<and>
      distinct (map creator_user_id [obj]) \<and>
      first_row_of sample_lib 1000
        (build_col_map sample_lib (columns creators_example) CREATOR_ALIASES)
        (rows creators_example) obj) \<and>
   get [ascii ''user_id'' \<mapsto> PStr (ascii ''u1''), ascii ''nickname'' \<mapsto> PStr (ascii ''A'')]
     (build_col_map sample_lib (columns creators_example) CREATOR_ALIASES)
     (ascii ''user_id'') PNone = PStr (ascii ''u1'') \<and>
   get [ascii ''user_id'' \<mapsto> PStr (ascii ''u1''), ascii ''nickname'' \<mapsto> PStr (ascii ''B'')]
     (build_col_map sample_lib (columns creators_example) CREATOR_ALIASES)
     (ascii ''user_id'') PNone = PStr (ascii ''u1'') \<and>
   ascii ''u1'' \<noteq> [] \<and>
   creator_cells_finite sample_lib
     (build_col_map sample_lib (columns creators_example) CREATOR_ALIASES)
     [ascii ''user_id'' \<mapsto> PStr (ascii ''u1''), ascii ''nickname'' \<mapsto> PStr (ascii ''A'')]"
proof -
  let ?cm = "build_col_map sample_lib (columns creators_example) CREATOR_ALIASES"
  let ?r1 = "[ascii ''user_id'' \<mapsto> PStr (ascii ''u1''), ascii ''nickname'' \<mapsto> PStr (ascii ''A'')]"
  let ?r2 = "[ascii ''user_id'' \<mapsto> PStr (ascii ''u1''), ascii ''nickname'' \<mapsto> PStr (ascii ''B'')]"
  note cm = creators_example_col_map
  have rs: "rows creators_example = [?r1, ?r2]" by (simp add: creators_example_def)
  have g1: "get ?r1 ?cm (ascii ''user_id'') PNone = PStr (ascii ''u1'')"
    unfolding cm by (simp add: get_def isna_def ascii_def)
  have g2: "get ?r2 ?cm (ascii ''user_id'') PNone = PStr (ascii ''u1'')"
    unfolding cm by (simp add: get_def isna_def ascii_def)
  have g3: "get ?r1 ?cm (ascii ''nickname'') PNone = PStr (ascii ''A'')"
    unfolding cm by (simp add: get_def isna_def ascii_def)
  have ne: "ascii ''u1'' \<noteq> []" by (simp add: ascii_def)
  have f1: "creator_cells_finite sample_lib ?cm ?r1"
    unfolding cm by (simp add: creator_cells_finite_def get_def infinite_cell_def ascii_def)
  have c: "?cm (ascii ''user_id'') = Some (ascii ''user_id'')" unfolding cm by (simp add: ascii_def)
  have de: "\<not> df_empty creators_example" by (simp add: df_empty_def creators_example_def)
  have imp: "import_creators sample_lib 1000 (Some creators_example)
          = creators_loop sample_lib 1000 ?cm [?r1, ?r2] {} []"
    unfolding rs [symmetric] by (simp add: import_creators_def Let_def c de)
  note T = creator_rows_first_wins [where L = sample_lib and now_ms = 1000
      and df = creators_example and col_map = ?cm and ?r1.0 = ?r1 and ?r2.0 = ?r2
      and u = "ascii ''u1''"]
  have T3: "\<exists>obj. creators_loop sample_lib 1000 ?cm [?r1, ?r2] {} [] = Inr [obj] \<and>
                 creator_user_id obj = ascii ''u1'' \<and>
                 creator_nickname obj = get ?r1 ?cm (ascii ''nickname'') PNone"
    by (rule T [THEN conjunct2, THEN conjunct2, THEN mp]) (intro conjI g1 g2 ne f1)
  then obtain obj where
    o: "creators_loop sample_lib 1000 ?cm [?r1, ?r2] {} [] = Inr [obj]"
       "creator_user_id obj = ascii ''u1''"
       "creator_nickname obj = get ?r1 ?cm (ascii ''nickname'') PNone"
    by blast
  from o(1) imp have i: "import_creators sample_lib 1000 (Some creators_example) = Inr [obj]"
    by simp
  have T1: "distinct (map creator_user_id [obj]) \<and>
          (\<forall>obj' \<in> set [obj]. first_row_of sample_lib 1000 ?cm (rows creators_example) obj') \<and>
          (\<forall>r \<in> set (rows creators_example).
              truthy (get r ?cm (ascii ''user_id'') PNone)
              \<longrightarrow> py_str sample_lib (get r ?cm (ascii ''user_id'') PNone)
                    \<in> creator_user_id ` set [obj])"
    by (rule T [where res = "[obj]", THEN conjunct1, THEN mp]) (rule i)
  then have d: "distinct (map creator_user_id [obj])"
    and fr: "first_row_of sample_lib 1000 ?cm (rows creators_example) obj"
    by simp_all
  have "\<exists>obj. import_creators sample_lib 1000 (Some creators_example) = Inr [obj] \<and>
      creator_user_id obj = ascii ''u1'' \<and> creator_nickname obj = PStr (ascii ''A'') \<and>
      distinct (map creator_user_id [obj]) \<and>
      first_row_of sample_lib 1000 ?cm (rows creators_example) obj"
    using i o(2) o(3) [unfolded g3] d fr by (intro exI [of _ obj] conjI)
  then show ?thesis using g1 g2 ne f1 by (intro conjI)
qed

lemma notes_example_batch:
  "build_col_map sample_lib (columns notes_example) NOTE_ALIASES (ascii ''note_id'') = None \<and>
   \<not> df_empty notes_example \<and>
   (\<exists>res. import_notes sample_lib 1000 (Some notes_example) = Inr res \<and> length res = 4 \<and>
      note_note_id (res ! 0) = ascii ''row_1'' \<and> note_note_id (res ! 3) = ascii ''row_4'') \<and>
   (\<exists>obj. note_row sample_lib 1000 (columns notes_example)
        (build_col_map sample_lib (columns notes_example) NOTE_ALIASES) 3
        [ascii ''title'' \<mapsto> PStr (ascii ''d'')] = Inr (Some obj) \<and>
      note_note_id obj = ascii ''row_4'' \<and> note_user_id obj = ascii ''unknown'') \<and>
   [ascii ''note_id'' \<mapsto> ascii ''note_id''] (ascii ''note_id'') \<noteq> None \<and>
   \<not> truthy (get [ascii ''note_id'' \<mapsto> PFloat NaN] [ascii ''note_id'' \<mapsto> ascii ''note_id'']
               (ascii ''note_id'') PNone) \<and>
   note_row sample_lib 1000 [ascii ''note_id''] [ascii ''note_id'' \<mapsto> ascii ''note_id''] 0
      [ascii ''note_id'' \<mapsto> PFloat NaN] = Inr None"
proof -
  let ?cm = "build_col_map sample_lib (columns notes_example) NOTE_ALIASES"
  let ?r = "[ascii ''title'' \<mapsto> PStr (ascii ''d'')]"
  let ?cm2 = "[ascii ''note_id'' \<mapsto> ascii ''note_id'']"
  let ?r2 = "[ascii ''note_id'' \<mapsto> PFloat NaN]"
  note F = notes_example_fields
  have de: "\<not> df_empty notes_example" by (simp add: df_empty_def notes_example_def)
  have len: "length (rows notes_example) = 4" by (simp add: notes_example_def)
  have fin: "note_cells_finite sample_lib ?cm r" for r
    by (simp add: note_cells_finite_def get_unresolved F not_infinite_PNone)
  note T = note_rows_policy [where L = sample_lib and now_ms = 1000 and df = notes_example]
  have "\<exists>batch. import_notes sample_lib 1000 (Some notes_example) = Inr batch"
    by (rule T [THEN conjunct2, THEN conjunct2, THEN conjunct2, THEN conjunct2, THEN conjunct2,
            THEN conjunct2, THEN conjunct2, THEN mp]) (simp add: fin)
  then obtain res where r: "import_notes sample_lib 1000 (Some notes_example) = Inr res" by blast
  have T4: "length res = length (rows notes_example) \<and>
          (\<forall>i. i < length (rows notes_example)
             \<longrightarrow> note_note_id (res ! i) = ascii ''row_'' @ str_of_int (int i + 1)) \<and>
          (3 < length (rows notes_example) \<longrightarrow> note_note_id (res ! 3) = ascii ''row_4'')"
    by (rule T [where res = res, THEN conjunct2, THEN conjunct2, THEN conjunct2, THEN conjunct1,
            THEN mp]) (intro conjI F(1) de r)
  then have l4: "length res = 4" and r4: "note_note_id (res ! 3) = ascii ''row_4''"
    and r1: "note_note_id (res ! 0) = ascii ''row_'' @ str_of_int (int 0 + 1)"
    using len by auto
  have r1': "note_note_id (res ! 0) = ascii ''row_1''"
    using r1 by (simp add: str_of_int_def ascii_def)
  have A: "\<exists>res. import_notes sample_lib 1000 (Some notes_example) = Inr res \<and> length res = 4 \<and>
      note_note_id (res ! 0) = ascii ''row_1'' \<and> note_note_id (res ! 3) = ascii ''row_4''"
    using r l4 r1' r4 by (intro exI [of _ res] conjI)
  note U = note_rows_policy [where L = sample_lib and now_ms = 1000
      and cols = "columns notes_example" and col_map = ?cm and idx = 3 and row = ?r]
  have "\<exists>out. note_row sample_lib 1000 (columns notes_example) ?cm 3 ?r = Inr (Some out)"
    by (rule U [THEN conjunct2, THEN conjunct2, THEN conjunct2, THEN conjunct2, THEN conjunct2,
            THEN conjunct2, THEN conjunct1, THEN mp]) (simp add: fin F(1))
  then obtain obj where o: "note_row sample_lib 1000 (columns notes_example) ?cm 3 ?r = Inr (Some obj)"
    by blast
  have "note_note_id obj = ascii ''row_'' @ str_of_int (int 3 + 1)"
    by (rule U [where obj = obj, THEN conjunct2, THEN conjunct2, THEN conjunct1, THEN mp])
      (intro conjI F(1) o)
  then have id4: "note_note_id obj = ascii ''row_4''" by (simp add: str_of_int_def ascii_def)
  have nt: "\<not> truthy (get ?r ?cm (ascii ''user_id'') PNone)"
    by (simp add: get_unresolved F)
  have unk: "note_user_id obj = ascii ''unknown''"
    by (rule U [where obj = obj, THEN conjunct2, THEN conjunct2, THEN conjunct2, THEN conjunct2,
            THEN conjunct1, THEN mp]) (intro conjI o nt)
  have B: "\<exists>obj. note_row sample_lib 1000 (columns notes_example) ?cm 3 ?r = Inr (Some obj) \<and>
      note_note_id obj = ascii ''row_4'' \<and> note_user_id obj = ascii ''unknown''"
    using o id4 unk by (intro exI [of _ obj] conjI)
  have c1: "?cm2 (ascii ''note_id'') \<noteq> None" by simp
  have c2: "\<not> truthy (get ?r2 ?cm2 (ascii ''note_id'') PNone)"
    by (simp add: get_def isna_def)
  have C: "note_row sample_lib 1000 [ascii ''note_id''] ?cm2 0 ?r2 = Inr None"
    by (rule note_rows_policy [THEN conjunct1, THEN mp]) (intro conjI c1 c2)
  show ?thesis using F(1) de A B c1 c2 C by (intro conjI)
qed

lemma comments_example_batch:
  "(\<exists>obj. import_comments sample_lib 1000 (Some comments_example) = Inr [obj] \<and>
      comment_comment_id obj = ascii ''c1'' \<and> comment_note_id obj = ascii ''n1'') \<and>
   comment_row sample_lib 1000
      (build_col_map sample_lib (columns comments_example) COMMENT_ALIASES)
      [ascii ''comment_id'' \<mapsto> PFloat NaN, ascii ''note_id'' \<mapsto> PStr (ascii ''n1'')] = Inr None \<and>
   build_col_map sample_lib (columns notes_example) COMMENT_ALIASES (ascii ''comment_id'') = None \<and>
   import_comments sample_lib 1000 (Some notes_example) = Inr [] \<and>
   import_from_excel sample_lib 1000 (Some creators_example) (Some notes_example)
       (Some notes_example)
     = import_from_excel sample_lib 1000 (Some creators_example) (Some notes_example) None"
proof -
  let ?cm = "build_col_map sample_lib (columns comments_example) COMMENT_ALIASES"
  let ?r1 = "[ascii ''comment_id'' \<mapsto> PStr (ascii ''c1''), ascii ''note_id'' \<mapsto> PStr (ascii ''n1'')]"
  let ?r2 = "[ascii ''comment_id'' \<mapsto> PFloat NaN, ascii ''note_id'' \<mapsto> PStr (ascii ''n1'')]"
  note cm = comments_example_col_map
  have rs: "rows comments_example = [?r1, ?r2]" by (simp add: comments_example_def)
  have g1: "get ?r1 ?cm (ascii ''comment_id'') PNone = PStr (ascii ''c1'')"
    unfolding cm by (simp add: get_def isna_def ascii_def)
  have g2: "get ?r1 ?cm (ascii ''note_id'') PNone = PStr (ascii ''n1'')"
    unfolding cm by (simp add: get_def isna_def ascii_def)
  have g3: "get ?r2 ?cm (ascii ''comment_id'') PNone = PNone"
    unfolding cm by (simp add: get_def isna_def ascii_def)
  have f1: "comment_cells_finite sample_lib ?cm ?r1"
    unfolding cm by (simp add: comment_cells_finite_def get_def infinite_cell_def ascii_def)
  have t1: "truthy (get ?r1 ?cm (ascii ''comment_id'') PNone)"
    and t2: "truthy (get ?r1 ?cm (ascii ''note_id'') PNone)"
    and t3: "\<not> truthy (get ?r2 ?cm (ascii ''comment_id'') PNone)"
    unfolding g1 g2 g3 by (simp_all add: ascii_def)
  have c: "?cm (ascii ''comment_id'') \<noteq> None \<and> ?cm (ascii ''note_id'') \<noteq> None"
    unfolding cm by (simp add: ascii_def)
  have de: "\<not> df_empty comments_example" by (simp add: df_empty_def comments_example_def)
  have imp: "import_comments sample_lib 1000 (Some comments_example)
          = comments_loop sample_lib 1000 ?cm [?r1, ?r2] []"
    unfolding rs [symmetric] using c by (auto simp: import_comments_def Let_def de)
  note T = comment_rows_policy [where L = sample_lib and now_ms = 1000
      and col_map = ?cm and ?r1.0 = ?r1 and ?r2.0 = ?r2]
  have "\<exists>obj. comments_loop sample_lib 1000 ?cm [?r1, ?r2] [] = Inr [obj] \<and>
                 comment_row sample_lib 1000 ?cm ?r1 = Inr (Some obj) \<and>
                 comment_row sample_lib 1000 ?cm ?r2 = Inr None"
    by (rule T [THEN conjunct2, THEN conjunct2, THEN conjunct2, THEN conjunct2, THEN mp])
      (intro conjI t1 t2 f1 t3)
  then obtain obj where
    o: "comments_loop sample_lib 1000 ?cm [?r1, ?r2] [] = Inr [obj]"
       "comment_row sample_lib 1000 ?cm ?r1 = Inr (Some obj)"
       "comment_row sample_lib 1000 ?cm ?r2 = Inr None"
    by blast
  have "\<exists>obj'. comment_row sample_lib 1000 ?cm ?r1 = Inr (Some obj') \<and>
                 comment_comment_id obj' = py_str sample_lib (get ?r1 ?cm (ascii ''comment_id'') PNone) \<and>
                 comment_note_id obj' = py_str sample_lib (get ?r1 ?cm (ascii ''note_id'') PNone)"
    by (rule T [where row = ?r1, THEN conjunct2, THEN conjunct2, THEN conjunct1, THEN mp])
      (intro conjI t1 t2 f1)
  with o(2) have ids: "comment_comment_id obj = ascii ''c1''" "comment_note_id obj = ascii ''n1''"
    by (auto simp: g1 g2)
  have A: "\<exists>obj. import_comments sample_lib 1000 (Some comments_example) = Inr [obj] \<and>
      comment_comment_id obj = ascii ''c1'' \<and> comment_note_id obj = ascii ''n1''"
    using o(1) ids by (intro exI [of _ obj]) (simp add: imp)
  note N = notes_example_no_comment_id
  have D: "import_comments sample_lib 1000 (Some notes_example) = Inr [] \<and>
          import_from_excel sample_lib 1000 (Some creators_example) (Some notes_example)
             (Some notes_example)
           = import_from_excel sample_lib 1000 (Some creators_example) (Some notes_example) None"
    by (rule comment_rows_policy [where L = sample_lib and df = notes_example,
            THEN conjunct1, THEN mp]) (rule disjI1, rule N)
  show ?thesis using A o(3) N D by (intro conjI) simp_all
qed


section \<open>Rows that raise\<close>

text \<open>
  A coercion raises \<^verbatim>\<open>OverflowError\<close> on an infinite cell and nothing in the three loops
  catches it: a row that is not skipped and has an infinite cell among its coerced cells
  produces no record and ends the run.
\<close>

lemma count_str_cases:
  "(\<exists>r. count_str L row col_map field = Inr r \<and> \<not> infinite_cell L (get row col_map field PNone)) \<or>
   (count_str L row col_map field = Inl OverflowError \<and> infinite_cell L (get row col_map field PNone))"
  using count_str_raises_iff [of L row col_map field]
  by (cases "count_str L row col_map field") auto

lemma to_int_cases:
  "(\<exists>r. to_int L v d = Inr r \<and> \<not> infinite_cell L v) \<or>
   (to_int L v d = Inl OverflowError \<and> infinite_cell L v)"
  using to_int_raises_iff [of L v d]
  by (cases "to_int L v d") auto

lemma to_ts_ms_cases:
  "(\<exists>r. to_ts_ms L v d = Inr r \<and> \<not> infinite_cell L v) \<or>
   (to_ts_ms L v d = Inl OverflowError \<and> infinite_cell L v)"
  using to_ts_ms_raises_iff [of L v d]
  by (cases "to_ts_ms L v d") auto

lemma creator_obj_raises:
  assumes "\<not> creator_cells_finite L col_map row"
  shows "creator_obj L now_ms col_map row u = Inl OverflowError"
proof -
  note A = count_str_cases [of L row col_map "ascii ''follows''"]
  note B = count_str_cases [of L row col_map "ascii ''fans''"]
  note C = count_str_cases [of L row col_map "ascii ''interaction''"]
  consider
      (a) "infinite_cell L (get row col_map (ascii ''follows'') PNone)"
    | (b) "\<not> infinite_cell L (get row col_map (ascii ''follows'') PNone)"
          "infinite_cell L (get row col_map (ascii ''fans'') PNone)"
    | (c) "\<not> infinite_cell L (get row col_map (ascii ''follows'') PNone)"
          "\<not> infinite_cell L (get row col_map (ascii ''fans'') PNone)"
          "infinite_cell L (get row col_map (ascii ''interaction'') PNone)"
    using assms unfolding creator_cells_finite_def by blast
  then show ?thesis
  proof cases
    case a
    with A have "count_str L row col_map (ascii ''follows'') = Inl OverflowError" by blast
    then show ?thesis by (simp add: creator_obj_def)
  next
    case b
    with A B obtain x where "count_str L row col_map (ascii ''follows'') = Inr x"
      "count_str L row col_map (ascii ''fans'') = Inl OverflowError" by blast
    then show ?thesis by (simp add: creator_obj_def)
  next
    case c
    with A B C obtain x y where "count_str L row col_map (ascii ''follows'') = Inr x"
      "count_str L row col_map (ascii ''fans'') = Inr y"
      "count_str L row col_map (ascii ''interaction'') = Inl OverflowError" by blast
    then show ?thesis by (simp add: creator_obj_def)
  qed
qed


lemma comment_row_raises:
  assumes "\<not> comment_cells_finite L col_map row"
    and "truthy (get row col_map (ascii ''comment_id'') PNone)"
    and "truthy (get row col_map (ascii ''note_id'') PNone)"
  shows "comment_row L now_ms col_map row = Inl OverflowError"
proof -
  note T = to_ts_ms_cases [of L "get row col_map (ascii ''create_time'') PNone" "PInt now_ms"]
  note A = to_int_cases [of L "get row col_map (ascii ''sub_comment_count'') PNone" "PInt 0"]
  note B = count_str_cases [of L row col_map "ascii ''like_count''"]
  note g = assms(2,3)
  consider
      (t) "infinite_cell L (get row col_map (ascii ''create_time'') PNone)"
    | (a) "\<not> infinite_cell L (get row col_map (ascii ''create_time'') PNone)"
          "infinite_cell L (get row col_map (ascii ''sub_comment_count'') PNone)"
    | (b) "\<not> infinite_cell L (get row col_map (ascii ''create_time'') PNone)"
          "\<not> infinite_cell L (get row col_map (ascii ''sub_comment_count'') PNone)"
          "infinite_cell L (get row col_map (ascii ''like_count'') PNone)"
    using assms(1) unfolding comment_cells_finite_def by blast
  then show ?thesis
  proof cases
    case t
    with T have "to_ts_ms L (get row col_map (ascii ''create_time'') PNone) (PInt now_ms)
        = Inl OverflowError" by blast
    with g show ?thesis by (simp add: comment_row_def Let_def)
  next
    case a
    with T A obtain x where
      "to_ts_ms L (get row col_map (ascii ''create_time'') PNone) (PInt now_ms) = Inr x"
      "to_int L (get row col_map (ascii ''sub_comment_count'') PNone) (PInt 0) = Inl OverflowError"
      by blast
    with g show ?thesis by (simp add: comment_row_def Let_def)
  next
    case b
    with T A B obtain x y where
      "to_ts_ms L (get row col_map (ascii ''create_time'') PNone) (PInt now_ms) = Inr x"
      "to_int L (get row col_map (ascii ''sub_comment_count'') PNone) (PInt 0) = Inr y"
      "count_str L row col_map (ascii ''like_count'') = Inl OverflowError" by blast
    with g show ?thesis by (simp add: comment_row_def Let_def)
  qed
qed

section \<open>Claims that every valid row yields its record\<close>

lemma creators_overflow_example_col_map:
  "build_col_map sample_lib (columns creators_overflow_example) CREATOR_ALIASES =
     [ascii ''user_id'' \<mapsto> ascii ''user_id'', ascii ''nickname'' \<mapsto> ascii ''nickname'',
      ascii ''fans'' \<mapsto> ascii ''fans'']"
  by (simp add: build_col_map_def lower_cols_def CREATOR_ALIASES_def creators_overflow_example_def
      sample_lib_def lower_cp_def ascii_def)


lemma comments_overflow_example_col_map:
  "build_col_map sample_lib (columns comments_overflow_example) COMMENT_ALIASES =
     [ascii ''comment_id'' \<mapsto> ascii ''comment_id'', ascii ''note_id'' \<mapsto> ascii ''note_id'',
      ascii ''like_count'' \<mapsto> ascii ''like_count'']"
  by (simp add: build_col_map_def lower_cols_def COMMENT_ALIASES_def comments_overflow_example_def
      sample_lib_def lower_cp_def ascii_def)

text \<open>
  C2. The claim is that, for every Creator row-set, the first row carrying a \<^verbatim>\<open>user_id\<close>
  produces the record of that \<^verbatim>\<open>user_id\<close>, so that two rows with \<^verbatim>\<open>user_id\<close> \<^verbatim>\<open>"u1"\<close> and nicknames
  \<^verbatim>\<open>"A"\<close> then \<^verbatim>\<open>"B"\<close> yield exactly one record, with nickname \<^verbatim>\<open>"A"\<close>. On the sheet
  \<open>creators_overflow_example\<close>, which is these two rows with a \<^verbatim>\<open>fans\<close> column whose first cell
  is infinite, the constructor call of the first row raises \<^verbatim>\<open>OverflowError\<close>: the sheet yields
  no record, neither with nickname \<^verbatim>\<open>"A"\<close> nor any other, and the run ends before the note
  and comment sections.
\<close>

theorem creator_first_row_overflow:
  "creators_loop sample_lib now_ms
      (build_col_map sample_lib (columns creators_overflow_example) CREATOR_ALIASES)
      (rows creators_overflow_example) {} [] = Inl OverflowError \<and>
   import_creators sample_lib now_ms (Some creators_overflow_example) = Inl OverflowError \<and>
   import_from_excel sample_lib now_ms (Some creators_overflow_example) df_notes df_comments
     = Inl OverflowError"
proof -
  let ?cm = "build_col_map sample_lib (columns creators_overflow_example) CREATOR_ALIASES"
  let ?r1 = "[ascii ''user_id'' \<mapsto> PStr (ascii ''u1''), ascii ''nickname'' \<mapsto> PStr (ascii ''A''),
              ascii ''fans'' \<mapsto> PFloat PosInf]"
  let ?r2 = "[ascii ''user_id'' \<mapsto> PStr (ascii ''u1''), ascii ''nickname'' \<mapsto> PStr (ascii ''B''),
              ascii ''fans'' \<mapsto> PFloat (Fin 12)]"
  note cm = creators_overflow_example_col_map
  have rs: "rows creators_overflow_example = [?r1, ?r2]"
    by (simp add: creators_overflow_example_def)
  have g1: "get ?r1 ?cm (ascii ''user_id'') PNone = PStr (ascii ''u1'')"
    unfolding cm by (simp add: get_def isna_def ascii_def)
  have t1: "truthy (get ?r1 ?cm (ascii ''user_id'') PNone)"
    unfolding g1 by (simp add: ascii_def)
  have g2: "get ?r1 ?cm (ascii ''fans'') PNone = PFloat PosInf"
    unfolding cm by (simp add: get_def isna_def ascii_def)
  have nf: "\<not> creator_cells_finite sample_lib ?cm ?r1"
    unfolding creator_cells_finite_def g2 by (simp add: infinite_cell_def)
  note ob = creator_obj_raises [OF nf, of now_ms]
  have l: "creators_loop sample_lib now_ms ?cm [?r1, ?r2] {} [] = Inl OverflowError"
    using t1 ob by (simp add: Let_def)
  have c: "?cm (ascii ''user_id'') = Some (ascii ''user_id'')" unfolding cm by (simp add: ascii_def)
  have de: "\<not> df_empty creators_overflow_example"
    by (simp add: df_empty_def creators_overflow_example_def)
  have i: "import_creators sample_lib now_ms (Some creators_overflow_example) = Inl OverflowError"
    using l [folded rs] by (simp add: import_creators_def Let_def c de)
  have e: "import_from_excel sample_lib now_ms (Some creators_overflow_example) df_notes df_comments
     = Inl OverflowError"
    by (simp add: import_from_excel_def i)
  from l [folded rs] i e show ?thesis by (intro conjI)
qed


text \<open>
  C7. The claim is that, when \<^verbatim>\<open>comment_id\<close> and \<^verbatim>\<open>note_id\<close> both resolve, every row with both
  cells non-empty yields a CommentRecord, so that a sheet with one valid row and one row
  missing \<^verbatim>\<open>comment_id\<close> yields exactly one record and one skip. On the sheet
  \<open>comments_overflow_example\<close>, which is such a sheet with a \<^verbatim>\<open>like_count\<close> column whose
  first cell is infinite, both columns resolve and both cells of the first row are
  non-empty, yet the row raises \<^verbatim>\<open>OverflowError\<close>: the sheet yields no record and the run
  ends.
\<close>

theorem comment_row_overflow:
  "build_col_map sample_lib (columns comments_overflow_example) COMMENT_ALIASES (ascii ''comment_id'')
     = Some (ascii ''comment_id'') \<and>
   build_col_map sample_lib (columns comments_overflow_example) COMMENT_ALIASES (ascii ''note_id'')
     = Some (ascii ''note_id'') \<and>
   truthy (get (rows comments_overflow_example ! 0)
             (build_col_map sample_lib (columns comments_overflow_example) COMMENT_ALIASES)
             (ascii ''comment_id'') PNone) \<and>
   truthy (get (rows comments_overflow_example ! 0)
             (build_col_map sample_lib (columns comments_overflow_example) COMMENT_ALIASES)
             (ascii ''note_id'') PNone) \<and>
   comment_row sample_lib now_ms
      (build_col_map sample_lib (columns comments_overflow_example) COMMENT_ALIASES)
      (rows comments_overflow_example ! 0) = Inl OverflowError \<and>
   import_comments sample_lib now_ms (Some comments_overflow_example) = Inl OverflowError \<and>
   import_from_excel sample_lib now_ms None None (Some comments_overflow_example)
     = Inl OverflowError"
proof -
  let ?cm = "build_col_map sample_lib (columns comments_overflow_example) COMMENT_ALIASES"
  let ?r1 = "[ascii ''comment_id'' \<mapsto> PStr (ascii ''c1''), ascii ''note_id'' \<mapsto> PStr (ascii ''n1''),
              ascii ''like_count'' \<mapsto> PFloat PosInf]"
  let ?r2 = "[ascii ''comment_id'' \<mapsto> PFloat NaN, ascii ''note_id'' \<mapsto> PStr (ascii ''n1''),
              ascii ''like_count'' \<mapsto> PFloat (Fin 3)]"
  note cm = comments_overflow_example_col_map
  have rs: "rows comments_overflow_example = [?r1, ?r2]"
    by (simp add: comments_overflow_example_def)
  have r0: "rows comments_overflow_example ! 0 = ?r1"
    by (simp add: comments_overflow_example_def)
  have c1: "?cm (ascii ''comment_id'') = Some (ascii ''comment_id'')"
    and c2: "?cm (ascii ''note_id'') = Some (ascii ''note_id'')"
    unfolding cm by (simp_all add: ascii_def)
  have g1: "get ?r1 ?cm (ascii ''comment_id'') PNone = PStr (ascii ''c1'')"
    unfolding cm by (simp add: get_def isna_def ascii_def)
  have g2: "get ?r1 ?cm (ascii ''note_id'') PNone = PStr (ascii ''n1'')"
    unfolding cm by (simp add: get_def isna_def ascii_def)
  have g3: "get ?r1 ?cm (ascii ''like_count'') PNone = PFloat PosInf"
    unfolding cm by (simp add: get_def isna_def ascii_def)
  have t1: "truthy (get ?r1 ?cm (ascii ''comment_id'') PNone)"
    and t2: "truthy (get ?r1 ?cm (ascii ''note_id'') PNone)"
    unfolding g1 g2 by (simp_all add: ascii_def)
  have nf: "\<not> comment_cells_finite sample_lib ?cm ?r1"
    unfolding comment_cells_finite_def g3 by (simp add: infinite_cell_def)
  note cr = comment_row_raises [OF nf t1 t2, of now_ms]
  have l: "comments_loop sample_lib now_ms ?cm [?r1, ?r2] [] = Inl OverflowError"
    by (simp add: cr)
  have de: "\<not> df_empty comments_overflow_example"
    by (simp add: df_empty_def comments_overflow_example_def)
  have i: "import_comments sample_lib now_ms (Some comments_overflow_example) = Inl OverflowError"
    using l [folded rs] by (simp add: import_comments_def Let_def de c1 c2)
  have e: "import_from_excel sample_lib now_ms None None (Some comments_overflow_example)
     = Inl OverflowError"
    by (simp add: import_from_excel_def import_creators_def import_notes_def i)
  from c1 c2 t1 [folded r0] t2 [folded r0] cr [folded r0] i e show ?thesis by (intro conjI)
qed

theorem comment_row_overflow_witness:
  "comment_row sample_lib 1000
      (build_col_map sample_lib (columns comments_overflow_example) COMMENT_ALIASES)
      (rows comments_overflow_example ! 0) = Inl OverflowError \<and>
   import_comments sample_lib 1000 (Some comments_overflow_example) = Inl OverflowError"
  using comment_row_overflow [of 1000] by blast

end
